theory Spec2Isabelle
  imports Complex_Main
begin

section \<open>Group-equivariant Lorentz convolution (LConv.py)\<close>

text \<open>
  A shallow embedding of \<^verbatim>\<open>GroupLorentzConv2d\<close>. Python integers are \<open>int\<close>, tensor
  dimensions are \<open>nat\<close>, tensor entries are real numbers (rounding of the machine
  floats is outside the model). Every exception of the source is a value of \<open>error\<close>.
\<close>

subsection \<open>Exceptions\<close>

datatype error = KeyError | ZeroDivisionError | ValueError | IndexError | RuntimeError

subsection \<open>Constructor arguments\<close>

text \<open>An argument that is either one integer or a pair, as \<^verbatim>\<open>isinstance(v, int)\<close> tests.\<close>

datatype int_or_pair = IntArg int | PairArg int int

fun as_pair :: "int_or_pair \<Rightarrow> int \<times> int" where
  "as_pair (IntArg v) = (v, v)"
| "as_pair (PairArg a b) = (a, b)"

text \<open>
  Modelled from the spec: the class \<^verbatim>\<open>GroupLorentzFullyConnected\<close> is imported from
  \<^verbatim>\<open>lib.lorentz_equivariant.layers.LFC\<close>, which is not part of the sources at hand. The
  spec gives its constructor (manifold, input width, output width, bias flag, normalize
  flag); its parameters are kept abstract as \<open>'w\<close>, and its call operator is an
  argument of \<open>forward\<close>.
\<close>

record 'w lfc =
  lfc_k :: real
  lfc_in_features :: int
  lfc_out_features :: int
  lfc_bias :: bool
  lfc_normalize :: bool
  lfc_weight :: 'w
  lfc_bias_data :: 'w

text \<open>
  The four index generators of \<^verbatim>\<open>groupy.gconv.make_gconv_indices\<close> (a third-party
  package) are parameters; \<open>make_indices_functions\<close> is the module-level dictionary.
\<close>

record 'i generators =
  make_c4_z2_indices :: "int \<Rightarrow> 'i"
  make_c4_p4_indices :: "int \<Rightarrow> 'i"
  make_d4_z2_indices :: "int \<Rightarrow> 'i"
  make_d4_p4m_indices :: "int \<Rightarrow> 'i"

definition make_indices_functions :: "'i generators \<Rightarrow> (int \<times> int) \<rightharpoonup> (int \<Rightarrow> 'i)" where
  "make_indices_functions G =
     [(1, 4) \<mapsto> make_c4_z2_indices G,
      (4, 4) \<mapsto> make_c4_p4_indices G,
      (1, 8) \<mapsto> make_d4_z2_indices G,
      (8, 8) \<mapsto> make_d4_p4m_indices G]"

subsection \<open>The layer object\<close>

record ('w, 'i) layer =
  input_stabilizer_size :: int
  output_stabilizer_size :: int
  manifold_k :: real
  in_channels :: int
  out_channels :: int
  kernel_size :: "int \<times> int"
  padding :: "int \<times> int"
  bias :: bool
  stride :: "int \<times> int"
  dilation :: "int \<times> int"
  kernel_len :: int
  linearized_kernel :: "'w lfc"
  inds :: 'i

text \<open>
  \<^verbatim>\<open>make_transformation_indices\<close>: a dictionary lookup, which raises \<^verbatim>\<open>KeyError\<close> on a
  missing key, and a call of the generator found on the kernel width.
\<close>

definition make_transformation_indices ::
  "'i generators \<Rightarrow> int \<Rightarrow> int \<Rightarrow> int \<times> int \<Rightarrow> error + 'i" where
  "make_transformation_indices G iss oss ks =
     (case make_indices_functions G (iss, oss) of
        None \<Rightarrow> Inl KeyError
      | Some f \<Rightarrow> Inr (f (snd ks)))"

text \<open>
  \<^verbatim>\<open>reset_parameters\<close>: \<^verbatim>\<open>math.sqrt(2.0 / n)\<close> raises \<^verbatim>\<open>ZeroDivisionError\<close> for
  \<open>n = 0\<close> and \<^verbatim>\<open>ValueError\<close> for a negative quotient. The samples of
  \<^verbatim>\<open>uniform_(-stdv, stdv)\<close> come from the generator state, modelled as the function
  \<open>draw\<close> from the bound to the sampled parameters (weight first, bias second).
\<close>

definition reset_parameters ::
  "(real \<Rightarrow> 'w \<times> 'w) \<Rightarrow> int \<Rightarrow> int \<times> int \<Rightarrow> bool \<Rightarrow> 'w lfc \<Rightarrow> error + 'w lfc" where
  "reset_parameters draw ic ks b lk =
     (let n = (ic - 1) * fst ks * snd ks in
      if n = 0 then Inl ZeroDivisionError
      else if 2 / real_of_int n < 0 then Inl ValueError
      else
        (let stdv = sqrt (2 / real_of_int n);
             lk1 = lk\<lparr>lfc_weight := fst (draw stdv)\<rparr>
         in Inr (if b then lk1\<lparr>lfc_bias_data := snd (draw stdv)\<rparr> else lk1)))"

text \<open>
  \<^verbatim>\<open>__init__\<close>. \<open>w0\<close> is the parameter state of the freshly built collaborator, before
  \<^verbatim>\<open>reset_parameters\<close> overwrites it. \<^verbatim>\<open>torch.nn.Unfold\<close> only stores its arguments,
  which are the same four pairs the layer keeps.
\<close>

definition init ::
  "'i generators \<Rightarrow> (real \<Rightarrow> 'w \<times> 'w) \<Rightarrow> 'w \<times> 'w \<Rightarrow> int \<Rightarrow> int \<Rightarrow> real \<Rightarrow> int \<Rightarrow> int \<Rightarrow>
   int_or_pair \<Rightarrow> int_or_pair \<Rightarrow> int_or_pair \<Rightarrow> int_or_pair \<Rightarrow> bool \<Rightarrow> bool \<Rightarrow>
   error + ('w, 'i) layer" where
  "init G draw w0 iss oss k ic oc ksz st pd dl b LFC_normalize =
     (let st' = as_pair st;
          ks' = as_pair ksz;
          pd' = as_pair pd;
          dl' = as_pair dl;
          klen = fst ks' * snd ks';
          lin_features = ((ic - 1) * fst ks' * snd ks') + 1;
          lk = \<lparr>lfc_k = k, lfc_in_features = lin_features, lfc_out_features = oc,
                lfc_bias = b, lfc_normalize = LFC_normalize,
                lfc_weight = fst w0, lfc_bias_data = snd w0\<rparr>
      in case reset_parameters draw ic ks' b lk of
           Inl e \<Rightarrow> Inl e
         | Inr lk' \<Rightarrow>
             (case make_transformation_indices G iss oss ks' of
                Inl e \<Rightarrow> Inl e
              | Inr tbl \<Rightarrow>
                  Inr \<lparr>input_stabilizer_size = iss, output_stabilizer_size = oss,
                       manifold_k = k, in_channels = ic, out_channels = oc,
                       kernel_size = ks', padding = pd', bias = b, stride = st',
                       dilation = dl', kernel_len = klen, linearized_kernel = lk',
                       inds = tbl\<rparr>))"

text \<open>The two presets fix the stabilizer sizes and pass everything else on.\<close>

definition LorentzP4MConvZ2 where
  "LorentzP4MConvZ2 G draw w0 = init G draw w0 1 8"

definition LorentzP4MConvP4M where
  "LorentzP4MConvP4M G draw w0 = init G draw w0 8 8"

definition supported_pairs :: "(int \<times> int) set" where
  "supported_pairs = {(1, 4), (4, 4), (1, 8), (8, 8)}"

subsection \<open>Tensors\<close>

text \<open>
  A tensor carries its shape and its entries. The input of \<open>forward\<close> has rank 4 and the
  patch tensor rank 3, both as nested lists; the result of the linear collaborator has
  whatever shape the collaborator gives it, with its entries in row-major order.
\<close>

record tensor4 =
  t4_shape :: "nat \<times> nat \<times> nat \<times> nat"
  t4_data :: "real list list list list"

record tensor3 =
  t3_shape :: "nat \<times> nat \<times> nat"
  t3_data :: "real list list list"

record tensor =
  t_shape :: "nat list"
  t_data :: "real list"

text \<open>\<^verbatim>\<open>x.permute(0, 3, 1, 2)\<close>: entry \<open>[n][c][h][w]\<close> of the result is entry \<open>[n][h][w][c]\<close> of \<open>x\<close>.\<close>

definition chw :: "nat \<Rightarrow> real list list list \<Rightarrow> real list list list" where
  "chw c img = map (\<lambda>ci. map (\<lambda>row. map (\<lambda>px. px ! ci) row) img) [0..<c]"

definition permute_0312 :: "tensor4 \<Rightarrow> tensor4" where
  "permute_0312 x =
     (case t4_shape x of (n, h, w, c) \<Rightarrow>
        \<lparr>t4_shape = (n, c, h, w), t4_data = map (chw c) (t4_data x)\<rparr>)"

text \<open>\<^verbatim>\<open>patches.permute(0, 2, 1)\<close>.\<close>

definition permute_021 :: "tensor3 \<Rightarrow> tensor3" where
  "permute_021 p =
     (case t3_shape p of (a, b, c) \<Rightarrow>
        \<lparr>t3_shape = (a, c, b),
         t3_data = map (\<lambda>m. map (\<lambda>l. map (\<lambda>d. m ! d ! l) [0..<b]) [0..<c]) (t3_data p)\<rparr>)"

text \<open>
  \<^verbatim>\<open>torch.nn.Unfold\<close> on a batched input \<open>(N, C, H, W)\<close>. It rejects a kernel size,
  dilation or stride that is not positive, a negative padding, an empty channel or
  spatial dimension, and a window that does not fit. Row \<open>d\<close> of the result belongs to
  channel \<open>d div (kh * kw)\<close> and kernel tap \<open>d mod (kh * kw)\<close>; column \<open>l\<close> is the window
  at output position \<open>(l div ow, l mod ow)\<close>; entries outside the image are the zero
  padding.
\<close>

definition tap ::
  "real list list list \<Rightarrow> nat \<Rightarrow> nat \<Rightarrow> int \<times> int \<Rightarrow> int \<times> int \<Rightarrow> int \<times> int \<Rightarrow> int \<times> int \<Rightarrow>
   nat \<Rightarrow> nat \<Rightarrow> nat \<Rightarrow> real" where
  "tap img h w ks dl pd st ow d l =
     (let kh = nat (fst ks); kw = nat (snd ks);
          c = d div (kh * kw);
          i = (d mod (kh * kw)) div kw;
          j = d mod kw;
          y = int (l div ow) * fst st - fst pd + int i * fst dl;
          x = int (l mod ow) * snd st - snd pd + int j * snd dl
      in if 0 \<le> y \<and> y < int h \<and> 0 \<le> x \<and> x < int w then img ! c ! nat y ! nat x else 0)"

definition unfold_len :: "nat \<Rightarrow> int \<Rightarrow> int \<Rightarrow> int \<Rightarrow> int \<Rightarrow> int" where
  "unfold_len n p d k s = (int n + 2 * p - (d * (k - 1) + 1)) div s + 1"

definition unfold_args_ok :: "int \<times> int \<Rightarrow> int \<times> int \<Rightarrow> int \<times> int \<Rightarrow> int \<times> int \<Rightarrow> bool" where
  "unfold_args_ok ks dl pd st \<longleftrightarrow>
     0 < fst ks \<and> 0 < snd ks \<and> 0 < fst dl \<and> 0 < snd dl
     \<and> 0 \<le> fst pd \<and> 0 \<le> snd pd \<and> 0 < fst st \<and> 0 < snd st"

definition unfold ::
  "int \<times> int \<Rightarrow> int \<times> int \<Rightarrow> int \<times> int \<Rightarrow> int \<times> int \<Rightarrow> tensor4 \<Rightarrow> error + tensor3" where
  "unfold ks dl pd st x =
     (case t4_shape x of (n, c, h, w) \<Rightarrow>
        (let oh = unfold_len h (fst pd) (fst dl) (fst ks) (fst st);
             ow = unfold_len w (snd pd) (snd dl) (snd ks) (snd st)
         in if \<not> unfold_args_ok ks dl pd st then Inl RuntimeError
            else if c = 0 \<or> h = 0 \<or> w = 0 then Inl RuntimeError
            else if oh < 1 \<or> ow < 1 then Inl RuntimeError
            else Inr \<lparr>t3_shape = (n, c * nat (fst ks * snd ks), nat (oh * ow)),
                      t3_data =
                        map (\<lambda>img.
                               map (\<lambda>d. map (\<lambda>l. tap img h w ks dl pd st (nat ow) d l)
                                             [0..<nat (oh * ow)])
                                   [0..<c * nat (fst ks * snd ks)])
                            (t4_data x)\<rparr>))"

text \<open>\<^verbatim>\<open>t.narrow(-1, start, length)\<close> on a rank-3 tensor, with the checks torch makes.\<close>

definition narrow_last :: "tensor3 \<Rightarrow> int \<Rightarrow> int \<Rightarrow> error + tensor3" where
  "narrow_last p start len =
     (case t3_shape p of (a, b, c) \<Rightarrow>
        if len < 0 then Inl RuntimeError
        else if start < - int c \<or> int c < start then Inl IndexError
        else
          (let s = (if start < 0 then start + int c else start) in
           if int c - len < s then Inl RuntimeError
           else Inr \<lparr>t3_shape = (a, b, nat len),
                     t3_data = map (map (\<lambda>r. take (nat len) (drop (nat s) r))) (t3_data p)\<rparr>))"

text \<open>\<^verbatim>\<open>torch.clamp(t, min=m)\<close>, entry by entry.\<close>

definition clamp_min :: "real \<Rightarrow> tensor3 \<Rightarrow> tensor3" where
  "clamp_min m p = p\<lparr>t3_data := map (map (map (\<lambda>v. max v m))) (t3_data p)\<rparr>"

text \<open>
  The shape a \<^verbatim>\<open>reshape\<close> or \<^verbatim>\<open>view\<close> call asks for, resolved against the number of
  entries: one dimension may be \<open>-1\<close> and is then inferred.
\<close>

definition infer_size :: "int list \<Rightarrow> nat \<Rightarrow> error + nat list" where
  "infer_size shp numel =
     (if list_ex (\<lambda>d. d < - 1) shp then Inl RuntimeError
      else if 1 < count_list shp (- 1) then Inl RuntimeError
      else
        (let newsize = prod_list (map nat (filter (\<lambda>d. d \<noteq> - 1) shp));
             infer = list_ex (\<lambda>d. d = - 1) shp
         in if numel = newsize \<or> (infer \<and> 0 < newsize \<and> numel mod newsize = 0)
            then (if infer
                  then (if newsize = 0 then Inl RuntimeError
                        else Inr (map (\<lambda>d. if d = - 1 then numel div newsize else nat d) shp))
                  else Inr (map nat shp))
            else Inl RuntimeError))"

text \<open>
  One row of the spatial block through \<^verbatim>\<open>reshape(.., c, m)\<close>, \<^verbatim>\<open>transpose(-1, -2)\<close> and
  the \<^verbatim>\<open>reshape\<close> back to a flat row.
\<close>

definition reshape_rows :: "nat \<Rightarrow> nat \<Rightarrow> real list \<Rightarrow> real list list" where
  "reshape_rows c m r = map (\<lambda>i. take m (drop (i * m) r)) [0..<c]"

definition transpose_2d :: "nat \<Rightarrow> nat \<Rightarrow> real list list \<Rightarrow> real list list" where
  "transpose_2d c m rows = map (\<lambda>t. map (\<lambda>i. rows ! i ! t) [0..<c]) [0..<m]"

definition regroup_row :: "nat \<Rightarrow> nat \<Rightarrow> real list \<Rightarrow> real list" where
  "regroup_row c m r = concat (transpose_2d c m (reshape_rows c m r))"

subsection \<open>The forward pass\<close>

text \<open>The radicand of the rescaled time of one row of clamped time taps.\<close>

definition time_radicand :: "real \<Rightarrow> int \<Rightarrow> real list \<Rightarrow> real" where
  "time_radicand k klen ts = sum_list (map (\<lambda>v. v ^ 2) ts) - real_of_int (klen - 1) * k"

text \<open>
  \<^verbatim>\<open>extract_lorentz_patches\<close>. The square roots are those of the reals, which agree with
  torch on arguments that are not negative.
\<close>

definition extract_lorentz_patches :: "('w, 'i) layer \<Rightarrow> tensor3 \<Rightarrow> error + tensor3" where
  "extract_lorentz_patches L patches =
     (case narrow_last patches 0 (kernel_len L) of
        Inl e \<Rightarrow> Inl e
      | Inr nt \<Rightarrow>
         (let patches_time = clamp_min (sqrt (manifold_k L)) nt;
              patches_time_rescaled =
                map (map (\<lambda>ts. [sqrt (time_radicand (manifold_k L) (kernel_len L) ts)]))
                    (t3_data patches_time)
          in case narrow_last patches (kernel_len L)
                    (int (snd (snd (t3_shape patches))) - kernel_len L) of
               Inl e \<Rightarrow> Inl e
             | Inr patches_space \<Rightarrow>
                (case t3_shape patches_space of (a, b, s) \<Rightarrow>
                   (case infer_size [int a, int b, in_channels L - 1, - 1] (a * b * s) of
                      Inl e \<Rightarrow> Inl e
                    | Inr shp \<Rightarrow>
                       (let sp = map (map (regroup_row (shp ! 2) (shp ! 3)))
                                     (t3_data patches_space)
                        in Inr \<lparr>t3_shape = (a, b, 1 + s),
                                t3_data = map2 (map2 (@)) patches_time_rescaled sp\<rparr>)))))"

text \<open>
  The output sizes of \<open>forward\<close>: \<^verbatim>\<open>math.floor(a / s + 1)\<close> with Python's true division,
  which raises \<^verbatim>\<open>ZeroDivisionError\<close> for \<open>s = 0\<close>.
\<close>

definition out_len :: "nat \<Rightarrow> int \<Rightarrow> int \<Rightarrow> int \<Rightarrow> int \<Rightarrow> error + int" where
  "out_len n p d k s =
     (if s = 0 then Inl ZeroDivisionError
      else Inr \<lfloor>real_of_int (int n + 2 * p - d * (k - 1) - 1) / real_of_int s + 1\<rfloor>)"

text \<open>\<^verbatim>\<open>out.view(..)\<close>: the entries stay as they are, the shape is replaced.\<close>

definition view_as :: "tensor \<Rightarrow> int list \<Rightarrow> error + tensor" where
  "view_as t shp =
     (case infer_size shp (prod_list (t_shape t)) of
        Inl e \<Rightarrow> Inl e
      | Inr s \<Rightarrow> Inr (t\<lparr>t_shape := s\<rparr>))"

text \<open>The patch tensor \<open>(batch, num_patches, channels * kernel_len)\<close> of steps 1 and 2.\<close>

definition patches_of :: "('w, 'i) layer \<Rightarrow> tensor4 \<Rightarrow> error + tensor3" where
  "patches_of L x =
     (case unfold (kernel_size L) (dilation L) (padding L) (stride L) (permute_0312 x) of
        Inl e \<Rightarrow> Inl e
      | Inr p \<Rightarrow> Inr (permute_021 p))"

text \<open>
  \<open>forward\<close> up to the \<^verbatim>\<open>view\<close>. \<open>call\<close> is the call operator of the linear collaborator.
\<close>

definition forward_out ::
  "('w lfc \<Rightarrow> tensor3 \<Rightarrow> error + tensor) \<Rightarrow> ('w, 'i) layer \<Rightarrow> tensor4 \<Rightarrow> error + tensor" where
  "forward_out call L x =
     (case t4_shape x of (bsz, h, w, c) \<Rightarrow>
        (case out_len h (fst (padding L)) (fst (dilation L)) (fst (kernel_size L))
                (fst (stride L)) of
           Inl e \<Rightarrow> Inl e
         | Inr h_out \<Rightarrow>
            (case out_len w (snd (padding L)) (snd (dilation L)) (snd (kernel_size L))
                    (snd (stride L)) of
               Inl e \<Rightarrow> Inl e
             | Inr w_out \<Rightarrow>
                (case patches_of L x of
                   Inl e \<Rightarrow> Inl e
                 | Inr patches \<Rightarrow>
                    (case extract_lorentz_patches L patches of
                       Inl e \<Rightarrow> Inl e
                     | Inr patches_pre_kernel \<Rightarrow>
                        (case call (linearized_kernel L) patches_pre_kernel of
                           Inl e \<Rightarrow> Inl e
                         | Inr out \<Rightarrow>
                            view_as out [int bsz, output_stabilizer_size L, h_out, w_out,
                                         out_channels L]))))))"

text \<open>
  \<open>forward\<close> with its one effect, the line \<^verbatim>\<open>print("final", out.shape)\<close> written to the
  standard output before the result is returned.
\<close>

type_synonym stdout = "(string \<times> nat list) list"

definition forward ::
  "('w lfc \<Rightarrow> tensor3 \<Rightarrow> error + tensor) \<Rightarrow> ('w, 'i) layer \<Rightarrow> tensor4 \<Rightarrow> stdout \<Rightarrow>
   (error + tensor) \<times> stdout" where
  "forward call L x out =
     (case forward_out call L x of
        Inl e \<Rightarrow> (Inl e, out)
      | Inr t \<Rightarrow> (Inr t, out @ [(''final'', t_shape t)]))"

subsection \<open>Closed forms used in the proofs\<close>

text \<open>
  What \<open>extract_lorentz_patches\<close> makes of one row \<open>r\<close> of a patch tensor whose rows have
  \<open>D\<close> entries: the rescaled time, then the regrouped spatial block (lemma
  \<open>extract_lorentz_patches_eq\<close>).
\<close>

definition lorentz_row :: "real \<Rightarrow> nat \<Rightarrow> nat \<Rightarrow> nat \<Rightarrow> real list \<Rightarrow> real list" where
  "lorentz_row k klen c D r =
     sqrt (time_radicand k (int klen) (map (\<lambda>v. max v (sqrt k)) (take klen r)))
       # regroup_row c ((D - klen) div c) (take (D - klen) (drop klen r))"

text \<open>
  The output sizes as \<^verbatim>\<open>torch.nn.Unfold\<close> computes them, the width of a patch, the
  conditions under which every shape check of \<open>forward\<close> before the collaborator goes
  through, and the tensor handed to the collaborator (lemma \<open>forward_out_eq\<close>).
\<close>

definition h_out_of :: "('w, 'i) layer \<Rightarrow> nat \<Rightarrow> int" where
  "h_out_of L h =
     unfold_len h (fst (padding L)) (fst (dilation L)) (fst (kernel_size L)) (fst (stride L))"

definition w_out_of :: "('w, 'i) layer \<Rightarrow> nat \<Rightarrow> int" where
  "w_out_of L w =
     unfold_len w (snd (padding L)) (snd (dilation L)) (snd (kernel_size L)) (snd (stride L))"

definition patch_width :: "('w, 'i) layer \<Rightarrow> nat \<Rightarrow> nat" where
  "patch_width L c = c * nat (fst (kernel_size L) * snd (kernel_size L))"

definition shapes_ok :: "('w, 'i) layer \<Rightarrow> nat \<times> nat \<times> nat \<times> nat \<Rightarrow> bool" where
  "shapes_ok L s =
     (case s of (n, h, w, c) \<Rightarrow>
        unfold_args_ok (kernel_size L) (dilation L) (padding L) (stride L)
        \<and> c \<noteq> 0 \<and> h \<noteq> 0 \<and> w \<noteq> 0 \<and> 1 \<le> h_out_of L h \<and> 1 \<le> w_out_of L w
        \<and> 0 \<le> kernel_len L \<and> kernel_len L \<le> int (patch_width L c) \<and> 0 < n
        \<and> 1 < in_channels L
        \<and> (patch_width L c - nat (kernel_len L)) mod nat (in_channels L - 1) = 0)"

definition patch_row :: "('w, 'i) layer \<Rightarrow> nat \<Rightarrow> nat \<Rightarrow> nat \<Rightarrow> real list list list \<Rightarrow> nat \<Rightarrow> real list" where
  "patch_row L h w c img l =
     map (\<lambda>d. tap (chw c img) h w (kernel_size L) (dilation L) (padding L) (stride L)
                 (nat (w_out_of L w)) d l)
         [0..<patch_width L c]"

definition pre_kernel :: "('w, 'i) layer \<Rightarrow> tensor4 \<Rightarrow> tensor3" where
  "pre_kernel L x =
     (case t4_shape x of (n, h, w, c) \<Rightarrow>
        \<lparr>t3_shape = (n, nat (h_out_of L h * w_out_of L w),
                     1 + (patch_width L c - nat (kernel_len L))),
         t3_data =
           map (\<lambda>img.
                  map (\<lambda>l. lorentz_row (manifold_k L) (nat (kernel_len L))
                              (nat (in_channels L - 1)) (patch_width L c)
                              (patch_row L h w c img l))
                      [0..<nat (h_out_of L h * w_out_of L w)])
               (t4_data x)\<rparr>)"

subsection \<open>Windows of the input\<close>

text \<open>An input whose nested lists have the lengths its shape declares.\<close>

definition wf4 :: "tensor4 \<Rightarrow> bool" where
  "wf4 x =
     (case t4_shape x of (n, h, w, c) \<Rightarrow>
        length (t4_data x) = n
        \<and> list_all (\<lambda>img. length img = h
             \<and> list_all (\<lambda>row. length row = w \<and> list_all (\<lambda>px. length px = c) row) img)
            (t4_data x))"

text \<open>
  The entry of channel \<open>ch\<close> that kernel tap \<open>t\<close> of the window at output position \<open>l\<close>
  covers in an image \<open>(height, width, channel)\<close>, zero in the padding.
\<close>

definition pixel_at ::
  "('w, 'i) layer \<Rightarrow> nat \<Rightarrow> nat \<Rightarrow> real list list list \<Rightarrow> nat \<Rightarrow> nat \<Rightarrow> nat \<Rightarrow> real" where
  "pixel_at L h w img l t ch =
     (let kw = nat (snd (kernel_size L));
          y = int (l div nat (w_out_of L w)) * fst (stride L) - fst (padding L)
                + int (t div kw) * fst (dilation L);
          x = int (l mod nat (w_out_of L w)) * snd (stride L) - snd (padding L)
                + int (t mod kw) * snd (dilation L)
      in if 0 \<le> y \<and> y < int h \<and> 0 \<le> x \<and> x < int w then img ! nat y ! nat x ! ch else 0)"

text \<open>
  The two orders of the spatial entries of a patch, in the words of the spec:
  channel-major, where all \<open>kernel_len\<close> taps of one spatial channel are contiguous,
  and tap-major, where all spatial channels of one tap are contiguous.
\<close>

definition channel_major_block ::
  "('w, 'i) layer \<Rightarrow> nat \<Rightarrow> nat \<Rightarrow> nat \<Rightarrow> real list list list \<Rightarrow> nat \<Rightarrow> real list" where
  "channel_major_block L h w c img l =
     concat (map (\<lambda>ch. map (\<lambda>t. pixel_at L h w img l t ch) [0..<nat (kernel_len L)]) [1..<c])"

definition tap_major_block ::
  "('w, 'i) layer \<Rightarrow> nat \<Rightarrow> nat \<Rightarrow> nat \<Rightarrow> real list list list \<Rightarrow> nat \<Rightarrow> real list" where
  "tap_major_block L h w c img l =
     concat (map (\<lambda>t. map (\<lambda>ch. pixel_at L h w img l t ch) [1..<c]) [0..<nat (kernel_len L)])"

text \<open>The input \<open>x\<close> with the time coordinate of pixel \<open>(i, y, xx)\<close> replaced by \<open>v\<close>.\<close>

definition set_time :: "tensor4 \<Rightarrow> nat \<Rightarrow> nat \<Rightarrow> nat \<Rightarrow> real \<Rightarrow> tensor4" where
  "set_time x i y xx v =
     x\<lparr>t4_data :=
         (t4_data x)[i := (t4_data x ! i)[y := (t4_data x ! i ! y)
                       [xx := (t4_data x ! i ! y ! xx)[0 := v]]]]\<rparr>"

subsection \<open>A small layer, input and collaborator\<close>

text \<open>
  A layer with stabilizer sizes (1, 4), curvature 1, three input channels and a 1 x 2
  kernel, and an input of one row of two pixels, both points of the hyperboloid
  \<open>t\<^sup>2 - s\<^sub>1\<^sup>2 - s\<^sub>2\<^sup>2 = 1\<close>.
\<close>

definition L_ex :: "(unit, unit) layer" where
  "L_ex = \<lparr>input_stabilizer_size = 1, output_stabilizer_size = 4, manifold_k = 1,
           in_channels = 3, out_channels = 2, kernel_size = (1, 2), padding = (0, 0),
           bias = True, stride = (1, 1), dilation = (1, 1), kernel_len = 2,
           linearized_kernel =
             \<lparr>lfc_k = 1, lfc_in_features = 5, lfc_out_features = 2, lfc_bias = True,
              lfc_normalize = False, lfc_weight = (), lfc_bias_data = ()\<rparr>,
           inds = ()\<rparr>"

definition x_ex :: tensor4 where
  "x_ex = \<lparr>t4_shape = (1, 1, 2, 3), t4_data = [[[[9, 4, 8], [19, 6, 18]]]]\<rparr>"

text \<open>
  A collaborator that returns four orientation copies of every output channel for each
  patch, again with every weight one.
\<close>

definition call_ex :: "unit lfc \<Rightarrow> tensor3 \<Rightarrow> error + tensor" where
  "call_ex lk p =
     (case t3_shape p of (a, b, d) \<Rightarrow>
        if int d \<noteq> lfc_in_features lk then Inl RuntimeError
        else Inr \<lparr>t_shape = [a, b, 4 * nat (lfc_out_features lk)],
                  t_data = concat (concat (map (map (\<lambda>r. replicate (4 * nat (lfc_out_features lk))
                                                       (sum_list r))) (t3_data p)))\<rparr>)"

text \<open>
  Modelled from the spec: a call operator "mapping (batch, num_patches, input_width) to
  (batch, num_patches, output_width)", here with every weight one and no bias.
\<close>

definition call_plain :: "unit lfc \<Rightarrow> tensor3 \<Rightarrow> error + tensor" where
  "call_plain lk p =
     (case t3_shape p of (a, b, d) \<Rightarrow>
        if int d \<noteq> lfc_in_features lk then Inl RuntimeError
        else Inr \<lparr>t_shape = [a, b, nat (lfc_out_features lk)],
                  t_data = concat (concat (map (map (\<lambda>r. replicate (nat (lfc_out_features lk))
                                                       (sum_list r))) (t3_data p)))\<rparr>)"

text \<open>
  Patch tensors for the same layer: the patch of the input above, one with two equal time
  taps above \<open>sqrt k\<close>, and one with both time taps equal to \<open>sqrt k\<close>.
\<close>

definition P_same :: tensor3 where
  "P_same = \<lparr>t3_shape = (1, 1, 6), t3_data = [[[5, 5, 4, 6, 8, 18]]]\<rparr>"

definition P_min :: tensor3 where
  "P_min = \<lparr>t3_shape = (1, 1, 6), t3_data = [[[1, 1, 4, 6, 8, 18]]]\<rparr>"

definition P_ex :: tensor3 where
  "P_ex = \<lparr>t3_shape = (1, 1, 6), t3_data = [[[9, 19, 4, 6, 8, 18]]]\<rparr>"

text \<open>
  An input with a time coordinate below \<open>sqrt k\<close> and the same input with that coordinate
  at \<open>sqrt k\<close>.
\<close>

definition x_low :: tensor4 where
  "x_low = \<lparr>t4_shape = (1, 1, 2, 3), t4_data = [[[[1 / 2, 4, 8], [19, 6, 18]]]]\<rparr>"

definition x_floor :: tensor4 where
  "x_floor = \<lparr>t4_shape = (1, 1, 2, 3), t4_data = [[[[1, 4, 8], [19, 6, 18]]]]\<rparr>"





section \<open>Construction\<close>

lemma make_indices_functions_dom:
  "dom (make_indices_functions G) = supported_pairs"
  by (auto simp: make_indices_functions_def supported_pairs_def split: if_splits)

lemma make_transformation_indices_ok:
  "(\<exists>tbl. make_transformation_indices G iss oss ks = Inr tbl) \<longleftrightarrow> (iss, oss) \<in> supported_pairs"
proof -
  have "(make_indices_functions G (iss, oss) \<noteq> None) \<longleftrightarrow> (iss, oss) \<in> supported_pairs"
    using make_indices_functions_dom [of G] by (metis domIff)
  then show ?thesis
    by (cases "make_indices_functions G (iss, oss)")
       (auto simp: make_transformation_indices_def)
qed

lemma make_transformation_indices_err:
  "(iss, oss) \<notin> supported_pairs \<Longrightarrow> make_transformation_indices G iss oss ks = Inl KeyError"
proof -
  assume "(iss, oss) \<notin> supported_pairs"
  then have "make_indices_functions G (iss, oss) = None"
    using make_indices_functions_dom [of G] by (metis domIff)
  then show ?thesis by (simp add: make_transformation_indices_def)
qed

lemma reset_parameters_ok:
  assumes "0 < (ic - 1) * fst ks * snd ks"
  shows "\<exists>lk'. reset_parameters draw ic ks b lk = Inr lk'"
proof -
  let ?n = "(ic - 1) * fst ks * snd ks"
  have "0 < real_of_int ?n" using assms by linarith
  then have "\<not> 2 / real_of_int ?n < 0" by (simp add: not_less)
  moreover have "?n \<noteq> 0" using assms by linarith
  ultimately show ?thesis
    unfolding reset_parameters_def Let_def by (simp del: of_int_mult of_int_diff)
qed

text \<open>
  Claim C4. With a fan-in \<open>(in_channels - 1) * kernel_h * kernel_w\<close> that is positive
  (so that the parameter initialisation, which runs first, goes through), construction
  succeeds exactly for the stabilizer pairs (1,4), (4,4), (1,8) and (8,8); for every
  other pair no layer is returned, whatever the other arguments are, and with a
  positive fan-in the failure is the \<^verbatim>\<open>KeyError\<close> of the dictionary lookup.
\<close>

theorem init_supported_pairs:
  "(0 < (ic - 1) * fst (as_pair ksz) * snd (as_pair ksz) \<longrightarrow>
      ((\<exists>L. init G draw w0 iss oss k ic oc ksz st pd dl b nrm = Inr L)
         \<longleftrightarrow> (iss, oss) \<in> supported_pairs) \<and>
      ((iss, oss) \<notin> supported_pairs \<longrightarrow>
         init G draw w0 iss oss k ic oc ksz st pd dl b nrm = Inl KeyError)) \<and>
   ((iss, oss) \<notin> supported_pairs \<longrightarrow>
      (\<exists>e. init G draw w0 iss oss k ic oc ksz st pd dl b nrm = Inl e))"
proof -
  let ?ks = "as_pair ksz"
  have A: "(\<exists>L. init G draw w0 iss oss k ic oc ksz st pd dl b nrm = Inr L)
             \<longleftrightarrow> (iss, oss) \<in> supported_pairs"
    if pos: "0 < (ic - 1) * fst ?ks * snd ?ks"
  proof -
    obtain lk' where lk': "reset_parameters draw ic ?ks b
        \<lparr>lfc_k = k, lfc_in_features = ((ic - 1) * fst ?ks * snd ?ks) + 1,
         lfc_out_features = oc, lfc_bias = b, lfc_normalize = nrm,
         lfc_weight = fst w0, lfc_bias_data = snd w0\<rparr> = Inr lk'"
      using reset_parameters_ok [OF pos] by blast
    show ?thesis
      using make_transformation_indices_ok [of G iss oss ?ks] lk'
      by (auto simp: init_def Let_def split: sum.splits)
  qed
  have B: "init G draw w0 iss oss k ic oc ksz st pd dl b nrm = Inl KeyError"
    if pos: "0 < (ic - 1) * fst ?ks * snd ?ks" and ns: "(iss, oss) \<notin> supported_pairs"
  proof -
    obtain lk' where lk': "reset_parameters draw ic ?ks b
        \<lparr>lfc_k = k, lfc_in_features = ((ic - 1) * fst ?ks * snd ?ks) + 1,
         lfc_out_features = oc, lfc_bias = b, lfc_normalize = nrm,
         lfc_weight = fst w0, lfc_bias_data = snd w0\<rparr> = Inr lk'"
      using reset_parameters_ok [OF pos] by blast
    show ?thesis
      using make_transformation_indices_err [OF ns, of G ?ks] lk'
      by (simp add: init_def Let_def)
  qed
  have C: "\<exists>e. init G draw w0 iss oss k ic oc ksz st pd dl b nrm = Inl e"
    if ns: "(iss, oss) \<notin> supported_pairs"
    using make_transformation_indices_err [OF ns, of G ?ks]
    by (auto simp: init_def Let_def split: sum.splits)
  show ?thesis using A B C by blast
qed

theorem init_supported_pairs_witness:
  "0 < ((3::int) - 1) * fst (as_pair (IntArg 3)) * snd (as_pair (IntArg 3))
   \<and> ((1::int), (4::int)) \<in> supported_pairs \<and> ((2::int), (2::int)) \<notin> supported_pairs
   \<and> (\<exists>L. init \<lparr>make_c4_z2_indices = (\<lambda>n. n), make_c4_p4_indices = (\<lambda>n. n + 1),
                   make_d4_z2_indices = (\<lambda>n. n + 2), make_d4_p4m_indices = (\<lambda>n. n + 3)\<rparr>
              (\<lambda>s. (s, - s)) (0, 0) 1 4 1 3 8 (IntArg 3) (IntArg 1) (IntArg 0) (IntArg 1)
              True False = Inr L)
   \<and> init \<lparr>make_c4_z2_indices = (\<lambda>n. n), make_c4_p4_indices = (\<lambda>n. n + 1),
             make_d4_z2_indices = (\<lambda>n. n + 2), make_d4_p4m_indices = (\<lambda>n. n + 3)\<rparr>
        (\<lambda>s. (s, - s)) (0, 0) 2 2 1 3 8 (IntArg 3) (IntArg 1) (IntArg 0) (IntArg 1)
        True False = Inl KeyError"
proof -
  let ?G = "\<lparr>make_c4_z2_indices = (\<lambda>n::int. n), make_c4_p4_indices = (\<lambda>n. n + 1),
             make_d4_z2_indices = (\<lambda>n. n + 2), make_d4_p4m_indices = (\<lambda>n. n + 3)\<rparr>"
  have pos: "0 < ((3::int) - 1) * fst (as_pair (IntArg 3)) * snd (as_pair (IntArg 3))"
    by simp
  have in1: "((1::int), (4::int)) \<in> supported_pairs"
    and out1: "((2::int), (2::int)) \<notin> supported_pairs"
    by (simp_all add: supported_pairs_def)
  show ?thesis
    using pos in1 out1
      init_supported_pairs [of 3 "IntArg 3" ?G "\<lambda>s::real. (s, - s)" "(0, 0)" 1 4 1 8
        "IntArg 1" "IntArg 0" "IntArg 1" True False]
      init_supported_pairs [of 3 "IntArg 3" ?G "\<lambda>s::real. (s, - s)" "(0, 0)" 2 2 1 8
        "IntArg 1" "IntArg 0" "IntArg 1" True False]
    by blast
qed


section \<open>Shapes and the closed form of the forward pass\<close>


lemma infer_size_reshape:
  "infer_size [int a, int b, ci, - 1] (a * b * s) =
     (if 0 < ci \<and> 0 < a \<and> 0 < b \<and> s mod nat ci = 0
      then Inr [a, b, nat ci, s div nat ci] else Inl RuntimeError)"
proof (cases "ci < 0")
  case True
  then show ?thesis by (auto simp: infer_size_def)
next
  case False
  then have ci: "0 \<le> ci" by simp
  have ns: "ci \<noteq> - 1" "\<not> ci < - 1" using ci by auto
  have f: "filter (\<lambda>d. d \<noteq> - 1) [int a, int b, ci, - 1] = [int a, int b, ci]"
    using ns by simp
  have cnt: "count_list [int a, int b, ci, - 1] (- 1) = 1" using ns by simp
  have ex1: "\<not> list_ex (\<lambda>d. d < - 1) [int a, int b, ci, - 1]" using ns by simp
  have ex2: "list_ex (\<lambda>d. d = - 1) [int a, int b, ci, - 1]" by simp
  have ns': "prod_list (map nat [int a, int b, ci]) = a * b * nat ci" by simp
  show ?thesis
  proof (cases "0 < ci \<and> 0 < a \<and> 0 < b")
    case pos: True
    then have p: "0 < a * b * nat ci" by simp
    have md: "(a * b * s) mod (a * b * nat ci) = a * b * (s mod nat ci)"
      by (simp add: mult.assoc)
    have dv: "(a * b * s) div (a * b * nat ci) = s div nat ci"
      using pos by (simp add: mult.assoc)
    have eqv: "(a * b * s = a * b * nat ci \<or> (a * b * s) mod (a * b * nat ci) = 0) \<longleftrightarrow> s mod nat ci = 0"
      using pos md by auto
    show ?thesis
      unfolding infer_size_def Let_def f cnt ns' 
      using pos p eqv dv ex1 ex2 ns by simp
  next
    case npos: False
    then have z: "a * b * nat ci = 0" using ci by auto
    show ?thesis
      unfolding infer_size_def Let_def f cnt ns' z
      using npos ex1 ex2 by auto
  qed
qed

lemma infer_size_plain:
  assumes "\<forall>d \<in> set shp. 0 \<le> d"
  shows "infer_size shp n = (if n = prod_list (map nat shp) then Inr (map nat shp) else Inl RuntimeError)"
proof -
  have a: "\<not> list_ex (\<lambda>d. d < - 1) shp" using assms by (auto simp: list_ex_iff)
  have b: "\<not> list_ex (\<lambda>d. d = - 1) shp" using assms by (auto simp: list_ex_iff)
  have c: "filter (\<lambda>d. d \<noteq> - 1) shp = shp" using assms by (auto simp: filter_id_conv)
  have d: "count_list shp (- 1) = 0" using assms by (auto simp: count_list_0_iff)
  show ?thesis unfolding infer_size_def Let_def c d using a b by simp
qed

lemma out_len_div:
  "s \<noteq> 0 \<Longrightarrow> out_len n p d k s = Inr ((int n + 2 * p - (d * (k - 1) + 1)) div s + 1)"
  by (simp add: out_len_def floor_divide_of_int_eq algebra_simps del: of_int_diff of_int_add of_int_mult)


lemma map2_same: "map2 F (map f xs) (map g xs) = map (\<lambda>x. F (f x) (g x)) xs"
  by (induction xs) auto

lemma narrow_last_eq:
  assumes "t3_shape P = (a, b, D)" "0 \<le> start"
  shows "narrow_last P start len =
     (if 0 \<le> len \<and> start + len \<le> int D
      then Inr \<lparr>t3_shape = (a, b, nat len),
                t3_data = map (map (\<lambda>r. take (nat len) (drop (nat start) r))) (t3_data P)\<rparr>
      else if len < 0 \<or> start \<le> int D then Inl RuntimeError else Inl IndexError)"
  using assms by (auto simp: narrow_last_def Let_def)

lemma extract_lorentz_patches_eq:
  assumes sh: "t3_shape P = (a, b, D)"
  shows "extract_lorentz_patches L P =
     (if 0 \<le> kernel_len L \<and> kernel_len L \<le> int D \<and> 0 < a \<and> 0 < b \<and> 1 < in_channels L
          \<and> (D - nat (kernel_len L)) mod nat (in_channels L - 1) = 0
      then Inr \<lparr>t3_shape = (a, b, 1 + (D - nat (kernel_len L))),
                t3_data = map (map (lorentz_row (manifold_k L) (nat (kernel_len L))
                                      (nat (in_channels L - 1)) D)) (t3_data P)\<rparr>
      else Inl RuntimeError)"
proof (cases "0 \<le> kernel_len L \<and> kernel_len L \<le> int D")
  case False
  then show ?thesis
    using sh by (auto simp: extract_lorentz_patches_def narrow_last_def Let_def)
next
  case True
  let ?kl = "kernel_len L"
  have n1: "narrow_last P 0 ?kl = Inr \<lparr>t3_shape = (a, b, nat ?kl),
              t3_data = map (map (\<lambda>r. take (nat ?kl) (drop (nat 0) r))) (t3_data P)\<rparr>"
    using narrow_last_eq [OF sh, of 0 ?kl] True by simp
  have n2: "narrow_last P ?kl (int D - ?kl) = Inr \<lparr>t3_shape = (a, b, nat (int D - ?kl)),
              t3_data = map (map (\<lambda>r. take (nat (int D - ?kl)) (drop (nat ?kl) r))) (t3_data P)\<rparr>"
    using narrow_last_eq [OF sh, of ?kl "int D - ?kl"] True by simp
  have S: "nat (int D - ?kl) = D - nat ?kl" using True by linarith
  have kk: "int (nat ?kl) = ?kl" using True by simp
  have inf: "infer_size [int a, int b, in_channels L - 1, - 1] (a * b * (D - nat ?kl)) =
     (if 0 < in_channels L - 1 \<and> 0 < a \<and> 0 < b \<and> (D - nat ?kl) mod nat (in_channels L - 1) = 0
      then Inr [a, b, nat (in_channels L - 1), (D - nat ?kl) div nat (in_channels L - 1)]
      else Inl RuntimeError)"
    by (rule infer_size_reshape)
  show ?thesis
    using True
    by (simp add: extract_lorentz_patches_def n1 n2 sh Let_def S inf clamp_min_def
          map2_same lorentz_row_def kk o_def)
qed

lemma permute_unfold_data:
  "map (\<lambda>m. map (\<lambda>l. map (\<lambda>d. m ! d ! l) [0..<D]) [0..<N])
       (map (\<lambda>img. map (\<lambda>d. map (\<lambda>l. f img d l) [0..<N]) [0..<D]) xs)
   = map (\<lambda>img. map (\<lambda>l. map (\<lambda>d. f img d l) [0..<D]) [0..<N]) xs"
  by (simp add: o_def cong: map_cong)


lemma patches_of_eq:
  assumes sh: "t4_shape x = (n, h, w, c)"
  shows "patches_of L x =
     (let ks = kernel_size L; dl = dilation L; pd = padding L; st = stride L;
          oh = unfold_len h (fst pd) (fst dl) (fst ks) (fst st);
          ow = unfold_len w (snd pd) (snd dl) (snd ks) (snd st)
      in if \<not> unfold_args_ok ks dl pd st \<or> c = 0 \<or> h = 0 \<or> w = 0 \<or> oh < 1 \<or> ow < 1
         then Inl RuntimeError
         else Inr \<lparr>t3_shape = (n, nat (oh * ow), c * nat (fst ks * snd ks)),
                   t3_data =
                     map (\<lambda>img.
                            map (\<lambda>l. map (\<lambda>d. tap (chw c img) h w ks dl pd st (nat ow) d l)
                                          [0..<c * nat (fst ks * snd ks)])
                                [0..<nat (oh * ow)])
                         (t4_data x)\<rparr>)"
  using sh
  by (simp add: patches_of_def unfold_def permute_0312_def permute_021_def Let_def
        permute_unfold_data o_def)


lemma forward_out_eq:
  assumes sh: "t4_shape x = (n, h, w, c)"
  shows "forward_out call L x =
     (if fst (stride L) = 0 \<or> snd (stride L) = 0 then Inl ZeroDivisionError
      else if \<not> shapes_ok L (n, h, w, c) then Inl RuntimeError
      else
        (case call (linearized_kernel L) (pre_kernel L x) of
           Inl e \<Rightarrow> Inl e
         | Inr out \<Rightarrow>
             view_as out [int n, output_stabilizer_size L, h_out_of L h, w_out_of L w,
                          out_channels L]))"
proof (cases "fst (stride L) = 0 \<or> snd (stride L) = 0")
  case True
  then show ?thesis using sh by (auto simp: forward_out_def out_len_def)
next
  case nz: False
  have ol1: "out_len h (fst (padding L)) (fst (dilation L)) (fst (kernel_size L)) (fst (stride L))
              = Inr (h_out_of L h)"
    using nz by (simp add: out_len_div h_out_of_def unfold_len_def)
  have ol2: "out_len w (snd (padding L)) (snd (dilation L)) (snd (kernel_size L)) (snd (stride L))
              = Inr (w_out_of L w)"
    using nz by (simp add: out_len_div w_out_of_def unfold_len_def)
  let ?ok1 = "unfold_args_ok (kernel_size L) (dilation L) (padding L) (stride L)
        \<and> c \<noteq> 0 \<and> h \<noteq> 0 \<and> w \<noteq> 0 \<and> 1 \<le> h_out_of L h \<and> 1 \<le> w_out_of L w"
  show ?thesis
  proof (cases ?ok1)
    case False
    then have "patches_of L x = Inl RuntimeError"
      using patches_of_eq [OF sh, of L] by (auto simp: Let_def h_out_of_def w_out_of_def)
    moreover have "\<not> shapes_ok L (n, h, w, c)" using False by (auto simp: shapes_ok_def)
    ultimately show ?thesis using nz sh by (simp add: forward_out_def ol1 ol2)
  next
    case ok1: True
    let ?P = "\<lparr>t3_shape = (n, nat (h_out_of L h * w_out_of L w), patch_width L c),
               t3_data = map (\<lambda>img. map (patch_row L h w c img)
                                 [0..<nat (h_out_of L h * w_out_of L w)]) (t4_data x)\<rparr>"
    have po: "patches_of L x = Inr ?P"
      using patches_of_eq [OF sh, of L] ok1
      by (simp add: Let_def h_out_of_def w_out_of_def patch_width_def patch_row_def not_less)
    have pos: "0 < nat (h_out_of L h * w_out_of L w)"
      using ok1 by (simp add: zero_less_mult_iff)
    have ex: "extract_lorentz_patches L ?P =
       (if shapes_ok L (n, h, w, c) then Inr (pre_kernel L x) else Inl RuntimeError)"
      using extract_lorentz_patches_eq [of ?P n "nat (h_out_of L h * w_out_of L w)" "patch_width L c" L]
        ok1 pos sh
      by (auto simp: shapes_ok_def pre_kernel_def o_def)
    show ?thesis using nz sh by (simp add: forward_out_def ol1 ol2 po ex)
  qed
qed



section \<open>The example evaluated\<close>

lemma sqrt_441: "sqrt 441 = 21"
  by (rule real_sqrt_unique) simp_all

lemma upt2: "[0..<2] = [0, 1]" by (simp add: upt_rec)
lemma upt6: "[0..<6] = [0, 1, 2, 3, 4, 5]" by code_simp

lemma shapes_ok_ex: "shapes_ok L_ex (1, 1, 2, 3)"
  by (simp add: shapes_ok_def L_ex_def unfold_args_ok_def h_out_of_def w_out_of_def
        unfold_len_def patch_width_def)

lemma h_out_ex: "h_out_of L_ex (Suc 0) = 1" "w_out_of L_ex 2 = 1" "patch_width L_ex 3 = 6"
  by (simp_all add: L_ex_def h_out_of_def w_out_of_def unfold_len_def patch_width_def)

lemma patch_row_ex: "patch_row L_ex (Suc 0) 2 3 [[[9, 4, 8], [19, 6, 18]]] 0 = [9, 19, 4, 6, 8, 18]"
  unfolding patch_row_def h_out_ex upt6
  by (simp add: tap_def chw_def L_ex_def Let_def upt_rec nth_Cons')

lemma lorentz_row_ex: "lorentz_row 1 2 2 6 [9, 19, 4, 6, 8, 18] = [21, 4, 8, 6, 18]"
  by (simp add: lorentz_row_def time_radicand_def regroup_row_def transpose_2d_def
        reshape_rows_def upt2 sqrt_441)

lemma pre_kernel_ex:
  "pre_kernel L_ex x_ex = \<lparr>t3_shape = (1, 1, 5), t3_data = [[[21, 4, 8, 6, 18]]]\<rparr>"
proof -
  have a: "manifold_k L_ex = 1" "nat (kernel_len L_ex) = 2" "nat (in_channels L_ex - 1) = 2"
    by (simp_all add: L_ex_def)
  show ?thesis
    unfolding pre_kernel_def x_ex_def
    by (simp add: h_out_ex a patch_row_ex lorentz_row_ex)
qed

lemma forward_out_ex:
  "forward_out call_ex L_ex x_ex = Inr \<lparr>t_shape = [1, 4, 1, 1, 2], t_data = replicate 8 57\<rparr>"
proof -
  have sh: "t4_shape x_ex = (1, 1, 2, 3)" by (simp add: x_ex_def)
  have c: "call_ex (linearized_kernel L_ex) (pre_kernel L_ex x_ex)
            = Inr \<lparr>t_shape = [1, 1, 8], t_data = replicate 8 57\<rparr>"
    unfolding pre_kernel_ex by (simp add: call_ex_def L_ex_def)
  have v: "view_as \<lparr>t_shape = [1, 1, 8], t_data = replicate 8 57\<rparr> [1, 4, 1, 1, 2]
            = Inr \<lparr>t_shape = [1, 4, 1, 1, 2], t_data = replicate 8 57\<rparr>"
    by (simp add: view_as_def infer_size_def)
  have p: "stride L_ex = (1, 1)" "output_stabilizer_size L_ex = 4" "out_channels L_ex = 2"
    by (simp_all add: L_ex_def)
  show ?thesis
    unfolding forward_out_eq [OF sh]
    using shapes_ok_ex v by (simp add: c h_out_ex p)
qed



lemma infer_size_nth:
  assumes "infer_size shp n = Inr s" "i < length shp" "shp ! i \<noteq> - 1"
  shows "s ! i = nat (shp ! i)"
  using assms by (auto simp: infer_size_def Let_def split: if_splits)

lemma forward_InrD:
  assumes sh: "t4_shape x = (n, h, w, c)" and r: "forward call L x out = (Inr t, out')"
  shows "fst (stride L) \<noteq> 0 \<and> snd (stride L) \<noteq> 0 \<and> shapes_ok L (n, h, w, c)
     \<and> out' = out @ [(''final'', t_shape t)]
     \<and> (\<exists>ot. call (linearized_kernel L) (pre_kernel L x) = Inr ot
            \<and> view_as ot [int n, output_stabilizer_size L, h_out_of L h, w_out_of L w,
                          out_channels L] = Inr t)"
proof -
  have fo: "forward_out call L x = Inr t" and o: "out' = out @ [(''final'', t_shape t)]"
    using r by (auto simp: forward_def split: sum.splits)
  show ?thesis
    using fo o unfolding forward_out_eq [OF sh]
    by (auto split: if_splits sum.splits)
qed

lemma out_len_floor:
  "s \<noteq> 0 \<Longrightarrow> \<lfloor>real_of_int (int n + 2 * p - d * (k - 1) - 1) / real_of_int s + 1\<rfloor>
     = unfold_len n p d k s"
  using out_len_div [of s n p d k] by (simp add: out_len_def unfold_len_def)

text \<open>
  Claim C5. Whenever \<open>forward\<close> returns, the height and the width of its result are
  \<open>floor((dim + 2 * padding - dilation * (kernel - 1) - 1) / stride + 1)\<close>, each computed
  from its own axis; a 32 x 32 input with kernel 3, stride 1, padding 0, dilation 1 gives
  30 x 30, and with kernel 3, stride 2, padding 1 it gives 16 x 16.
\<close>

theorem forward_output_sizes:
  "(t4_shape x = (n, h, w, c) \<and> forward call L x out = (Inr t, out') \<longrightarrow>
      int (t_shape t ! 2) =
        \<lfloor>real_of_int (int h + 2 * fst (padding L)
              - fst (dilation L) * (fst (kernel_size L) - 1) - 1)
           / real_of_int (fst (stride L)) + 1\<rfloor>
      \<and> int (t_shape t ! 3) =
        \<lfloor>real_of_int (int w + 2 * snd (padding L)
              - snd (dilation L) * (snd (kernel_size L) - 1) - 1)
           / real_of_int (snd (stride L)) + 1\<rfloor>)
   \<and> out_len 32 0 1 3 1 = Inr 30 \<and> out_len 32 1 1 3 2 = Inr 16"
proof -
  have A: "int (t_shape t ! 2) =
        \<lfloor>real_of_int (int h + 2 * fst (padding L)
              - fst (dilation L) * (fst (kernel_size L) - 1) - 1)
           / real_of_int (fst (stride L)) + 1\<rfloor>
      \<and> int (t_shape t ! 3) =
        \<lfloor>real_of_int (int w + 2 * snd (padding L)
              - snd (dilation L) * (snd (kernel_size L) - 1) - 1)
           / real_of_int (snd (stride L)) + 1\<rfloor>"
    if sh: "t4_shape x = (n, h, w, c)" and r: "forward call L x out = (Inr t, out')"
  proof -
    from forward_InrD [OF sh r] obtain ot where
      nz: "fst (stride L) \<noteq> 0" "snd (stride L) \<noteq> 0" and ok: "shapes_ok L (n, h, w, c)"
      and v: "view_as ot [int n, output_stabilizer_size L, h_out_of L h, w_out_of L w,
                          out_channels L] = Inr t"
      by blast
    let ?shp = "[int n, output_stabilizer_size L, h_out_of L h, w_out_of L w, out_channels L]"
    have ge: "1 \<le> h_out_of L h" "1 \<le> w_out_of L w"
      using ok by (simp_all add: shapes_ok_def)
    obtain s where s: "infer_size ?shp (prod_list (t_shape ot)) = Inr s" and ts: "t_shape t = s"
      using v by (auto simp: view_as_def split: sum.splits)
    have "s ! 2 = nat (?shp ! 2)" by (rule infer_size_nth [OF s]) (use ge in simp_all)
    moreover have "s ! 3 = nat (?shp ! 3)" by (rule infer_size_nth [OF s]) (use ge in simp_all)
    ultimately have "int (t_shape t ! 2) = h_out_of L h" "int (t_shape t ! 3) = w_out_of L w"
      using ge ts by simp_all
    then show ?thesis
      using out_len_floor [OF nz(1)] out_len_floor [OF nz(2)]
      by (simp add: h_out_of_def w_out_of_def)
  qed
  have B: "out_len 32 0 1 3 1 = Inr 30" "out_len 32 1 1 3 2 = Inr 16"
    by (simp_all add: out_len_div)
  show ?thesis using A B by blast
qed

lemma forward_ex:
  "forward call_ex L_ex x_ex [] =
     (Inr \<lparr>t_shape = [1, 4, 1, 1, 2], t_data = replicate 8 57\<rparr>, [(''final'', [1, 4, 1, 1, 2])])"
  by (simp add: forward_def forward_out_ex)

theorem forward_output_sizes_witness:
  "t4_shape x_ex = (1, 1, 2, 3)
   \<and> forward call_ex L_ex x_ex [] =
       (Inr \<lparr>t_shape = [1, 4, 1, 1, 2], t_data = replicate 8 57\<rparr>, [(''final'', [1, 4, 1, 1, 2])])
   \<and> int ([1, 4, 1, 1, 2] ! 2) = \<lfloor>real_of_int (int 1 + 2 * 0 - 1 * (1 - 1) - 1) / real_of_int 1 + 1\<rfloor>
   \<and> int ([1, 4, 1, 1, 2] ! 3) = \<lfloor>real_of_int (int 2 + 2 * 0 - 1 * (2 - 1) - 1) / real_of_int 1 + 1\<rfloor>"
proof -
  have sh: "t4_shape x_ex = (1, 1, 2, 3)" by (simp add: x_ex_def)
  have p: "padding L_ex = (0, 0)" "dilation L_ex = (1, 1)" "kernel_size L_ex = (1, 2)"
    "stride L_ex = (1, 1)" by (simp_all add: L_ex_def)
  show ?thesis
    using forward_output_sizes [of x_ex 1 1 2 3 call_ex L_ex "[]"
        "\<lparr>t_shape = [1, 4, 1, 1, 2], t_data = replicate 8 57\<rparr>" "[(''final'', [1, 4, 1, 1, 2])]"]
      sh forward_ex
    by (simp add: p)
qed


lemma supported_pairs_oss: "(i, s) \<in> supported_pairs \<Longrightarrow> s = 4 \<or> s = 8"
  by (auto simp: supported_pairs_def)

lemma patches_of_shape:
  assumes sh: "t4_shape x = (n, h, w, c)" and p: "patches_of L x = Inr P"
  shows "t3_shape P = (n, nat (h_out_of L h) * nat (w_out_of L w), patch_width L c)
     \<and> 1 \<le> h_out_of L h \<and> 1 \<le> w_out_of L w \<and> fst (stride L) \<noteq> 0 \<and> snd (stride L) \<noteq> 0"
proof -
  have *: "unfold_args_ok (kernel_size L) (dilation L) (padding L) (stride L)"
    "1 \<le> h_out_of L h" "1 \<le> w_out_of L w"
    "t3_shape P = (n, nat (h_out_of L h * w_out_of L w), patch_width L c)"
    using p unfolding patches_of_eq [OF sh]
    by (auto simp: Let_def h_out_of_def w_out_of_def patch_width_def split: if_splits)
  have "nat (h_out_of L h * w_out_of L w) = nat (h_out_of L h) * nat (w_out_of L w)"
    using *(2) by (simp add: nat_mult_distrib)
  then show ?thesis using * by (auto simp: unfold_args_ok_def)
qed

text \<open>
  Claim C2, amended. The extraction produces \<open>height_out * width_out\<close> patches for each
  batch element. For a supported stabilizer pair and a nonnegative number of output
  channels, whenever \<open>forward\<close> returns, its result has the shape
  \<open>(batch, output_stabilizer_size, height_out, width_out, out_channels)\<close> and the
  entries of the collaborator's output, which are exactly as many as that shape holds;
  when the collaborator returns a different number of entries, \<open>forward\<close> raises and
  prints nothing.
\<close>

theorem forward_result_shape:
  "(t4_shape x = (n, h, w, c) \<and> patches_of L x = Inr P \<longrightarrow>
      (\<exists>ho wo. out_len h (fst (padding L)) (fst (dilation L)) (fst (kernel_size L))
                  (fst (stride L)) = Inr ho
         \<and> out_len w (snd (padding L)) (snd (dilation L)) (snd (kernel_size L))
                  (snd (stride L)) = Inr wo
         \<and> fst (snd (t3_shape P)) = nat ho * nat wo))
   \<and> (t4_shape x = (n, h, w, c)
        \<and> (input_stabilizer_size L, output_stabilizer_size L) \<in> supported_pairs
        \<and> 0 \<le> out_channels L \<and> forward call L x out = (Inr t, out') \<longrightarrow>
      (\<exists>ho wo ot. out_len h (fst (padding L)) (fst (dilation L)) (fst (kernel_size L))
                  (fst (stride L)) = Inr ho
         \<and> out_len w (snd (padding L)) (snd (dilation L)) (snd (kernel_size L))
                  (snd (stride L)) = Inr wo
         \<and> call (linearized_kernel L) (pre_kernel L x) = Inr ot
         \<and> prod_list (t_shape ot)
             = n * nat (output_stabilizer_size L) * nat ho * nat wo * nat (out_channels L)
         \<and> t_shape t = [n, nat (output_stabilizer_size L), nat ho, nat wo,
                         nat (out_channels L)]
         \<and> t_data t = t_data ot))
   \<and> (t4_shape x = (n, h, w, c)
        \<and> (input_stabilizer_size L, output_stabilizer_size L) \<in> supported_pairs
        \<and> 0 \<le> out_channels L
        \<and> call (linearized_kernel L) (pre_kernel L x) = Inr ot
        \<and> prod_list (t_shape ot)
             \<noteq> n * nat (output_stabilizer_size L) * nat (h_out_of L h) * nat (w_out_of L w)
                 * nat (out_channels L) \<longrightarrow>
      (\<exists>e. forward call L x out = (Inl e, out)))"
proof -
  have A: "\<exists>ho wo. out_len h (fst (padding L)) (fst (dilation L)) (fst (kernel_size L))
                  (fst (stride L)) = Inr ho
         \<and> out_len w (snd (padding L)) (snd (dilation L)) (snd (kernel_size L))
                  (snd (stride L)) = Inr wo
         \<and> fst (snd (t3_shape P)) = nat ho * nat wo"
    if sh: "t4_shape x = (n, h, w, c)" and p: "patches_of L x = Inr P"
  proof -
    note s = patches_of_shape [OF sh p]
    have "out_len h (fst (padding L)) (fst (dilation L)) (fst (kernel_size L)) (fst (stride L))
            = Inr (h_out_of L h)"
      "out_len w (snd (padding L)) (snd (dilation L)) (snd (kernel_size L)) (snd (stride L))
            = Inr (w_out_of L w)"
      using s by (simp_all add: out_len_div h_out_of_def w_out_of_def unfold_len_def)
    then show ?thesis using s by simp
  qed
  have shp: "infer_size [int n, output_stabilizer_size L, h_out_of L h, w_out_of L w,
                 out_channels L] m
      = (if m = n * nat (output_stabilizer_size L) * nat (h_out_of L h) * nat (w_out_of L w)
                  * nat (out_channels L)
         then Inr [n, nat (output_stabilizer_size L), nat (h_out_of L h), nat (w_out_of L w),
                   nat (out_channels L)]
         else Inl RuntimeError)"
    if sup: "(input_stabilizer_size L, output_stabilizer_size L) \<in> supported_pairs"
      and oc: "0 \<le> out_channels L" and ge: "1 \<le> h_out_of L h" "1 \<le> w_out_of L w" for m
  proof -
    have "0 \<le> output_stabilizer_size L" using supported_pairs_oss [OF sup] by auto
    then have "\<forall>d \<in> set [int n, output_stabilizer_size L, h_out_of L h, w_out_of L w,
                 out_channels L]. 0 \<le> d"
      using oc ge by simp
    from infer_size_plain [OF this, of m] show ?thesis by (simp add: mult.assoc)
  qed
  have B: "\<exists>ho wo ot. out_len h (fst (padding L)) (fst (dilation L)) (fst (kernel_size L))
                  (fst (stride L)) = Inr ho
         \<and> out_len w (snd (padding L)) (snd (dilation L)) (snd (kernel_size L))
                  (snd (stride L)) = Inr wo
         \<and> call (linearized_kernel L) (pre_kernel L x) = Inr ot
         \<and> prod_list (t_shape ot)
             = n * nat (output_stabilizer_size L) * nat ho * nat wo * nat (out_channels L)
         \<and> t_shape t = [n, nat (output_stabilizer_size L), nat ho, nat wo,
                         nat (out_channels L)]
         \<and> t_data t = t_data ot"
    if sh: "t4_shape x = (n, h, w, c)"
      and sup: "(input_stabilizer_size L, output_stabilizer_size L) \<in> supported_pairs"
      and oc: "0 \<le> out_channels L" and r: "forward call L x out = (Inr t, out')"
  proof -
    from forward_InrD [OF sh r] obtain ot where
      nz: "fst (stride L) \<noteq> 0" "snd (stride L) \<noteq> 0" and ok: "shapes_ok L (n, h, w, c)"
      and c: "call (linearized_kernel L) (pre_kernel L x) = Inr ot"
      and v: "view_as ot [int n, output_stabilizer_size L, h_out_of L h, w_out_of L w,
                          out_channels L] = Inr t"
      by blast
    have ge: "1 \<le> h_out_of L h" "1 \<le> w_out_of L w"
      using ok by (simp_all add: shapes_ok_def)
    have ol: "out_len h (fst (padding L)) (fst (dilation L)) (fst (kernel_size L)) (fst (stride L))
            = Inr (h_out_of L h)"
      "out_len w (snd (padding L)) (snd (dilation L)) (snd (kernel_size L)) (snd (stride L))
            = Inr (w_out_of L w)"
      using nz by (simp_all add: out_len_div h_out_of_def w_out_of_def unfold_len_def)
    have "prod_list (t_shape ot)
             = n * nat (output_stabilizer_size L) * nat (h_out_of L h) * nat (w_out_of L w)
                 * nat (out_channels L)
         \<and> t_shape t = [n, nat (output_stabilizer_size L), nat (h_out_of L h),
                         nat (w_out_of L w), nat (out_channels L)]
         \<and> t_data t = t_data ot"
      using v unfolding view_as_def shp [OF sup oc ge]
      by (auto split: if_splits)
    then show ?thesis using ol c by blast
  qed
  have C: "\<exists>e. forward call L x out = (Inl e, out)"
    if sh: "t4_shape x = (n, h, w, c)"
      and sup: "(input_stabilizer_size L, output_stabilizer_size L) \<in> supported_pairs"
      and oc: "0 \<le> out_channels L"
      and c: "call (linearized_kernel L) (pre_kernel L x) = Inr ot"
      and ne: "prod_list (t_shape ot)
             \<noteq> n * nat (output_stabilizer_size L) * nat (h_out_of L h) * nat (w_out_of L w)
                 * nat (out_channels L)"
  proof (cases "fst (stride L) \<noteq> 0 \<and> snd (stride L) \<noteq> 0 \<and> shapes_ok L (n, h, w, c)")
    case False
    then show ?thesis
      unfolding forward_def forward_out_eq [OF sh] by auto
  next
    case True
    then have ge: "1 \<le> h_out_of L h" "1 \<le> w_out_of L w"
      by (simp_all add: shapes_ok_def)
    show ?thesis
      unfolding forward_def forward_out_eq [OF sh]
      using True ne by (simp add: c view_as_def shp [OF sup oc ge])
  qed
  show ?thesis using A B C by blast
qed


lemma patches_of_ex:
  "patches_of L_ex x_ex = Inr \<lparr>t3_shape = (1, 1, 6), t3_data = [[[9, 19, 4, 6, 8, 18]]]\<rparr>"
proof -
  have sh: "t4_shape x_ex = (Suc 0, Suc 0, 2, 3)" by (simp add: x_ex_def)
  have ok: "unfold_args_ok (kernel_size L_ex) (dilation L_ex) (padding L_ex) (stride L_ex)"
    by (simp add: unfold_args_ok_def L_ex_def)
  have hw: "unfold_len (Suc 0) (fst (padding L_ex)) (fst (dilation L_ex)) (fst (kernel_size L_ex))
              (fst (stride L_ex)) = 1"
    "unfold_len 2 (snd (padding L_ex)) (snd (dilation L_ex)) (snd (kernel_size L_ex))
              (snd (stride L_ex)) = 1"
    using h_out_ex by (simp_all add: h_out_of_def w_out_of_def)
  have pw: "3 * nat (fst (kernel_size L_ex) * snd (kernel_size L_ex)) = 6"
    using h_out_ex(3) by (simp add: patch_width_def)
  have row: "map (\<lambda>d. tap (chw 3 [[[9, 4, 8], [19, 6, 18]]]) (Suc 0) 2 (kernel_size L_ex)
                        (dilation L_ex) (padding L_ex) (stride L_ex) (Suc 0) d 0) [0..<6]
             = [9, 19, 4, 6, 8, 18]"
    using patch_row_ex by (simp add: patch_row_def h_out_ex)
  show ?thesis
    unfolding patches_of_eq [OF sh] Let_def hw pw
    using ok row by (simp add: x_ex_def)
qed

lemma forward_plain_ex: "forward call_plain L_ex x_ex [] = (Inl RuntimeError, [])"
proof -
  have sh: "t4_shape x_ex = (1, 1, 2, 3)" by (simp add: x_ex_def)
  have c: "call_plain (linearized_kernel L_ex) (pre_kernel L_ex x_ex)
            = Inr \<lparr>t_shape = [1, 1, 2], t_data = replicate 2 57\<rparr>"
    unfolding pre_kernel_ex by (simp add: call_plain_def L_ex_def)
  have v: "view_as \<lparr>t_shape = [1, 1, 2], t_data = replicate 2 57\<rparr> [1, 4, 1, 1, 2]
            = Inl RuntimeError"
    by (simp add: view_as_def infer_size_def)
  have p: "stride L_ex = (1, 1)" "output_stabilizer_size L_ex = 4" "out_channels L_ex = 2"
    by (simp_all add: L_ex_def)
  show ?thesis
    unfolding forward_def forward_out_eq [OF sh]
    using shapes_ok_ex v by (simp add: c h_out_ex p)
qed

text \<open>
  Claim C2 as stated fails: for the stabilizer pair (1, 4) and an input whose output
  size is 1 x 1, the extraction yields one patch, not \<open>4 * 1 * 1\<close>, and with a
  collaborator that maps \<open>(batch, num_patches, input_width)\<close> to
  \<open>(batch, num_patches, output_width)\<close> the call raises instead of returning.
\<close>

theorem patch_count_counterexample:
  "(input_stabilizer_size L_ex, output_stabilizer_size L_ex) = (1, 4)
   \<and> t4_shape x_ex = (1, 1, 2, 3) \<and> in_channels L_ex = 3
   \<and> out_len 1 (fst (padding L_ex)) (fst (dilation L_ex)) (fst (kernel_size L_ex))
        (fst (stride L_ex)) = Inr 1
   \<and> out_len 2 (snd (padding L_ex)) (snd (dilation L_ex)) (snd (kernel_size L_ex))
        (snd (stride L_ex)) = Inr 1
   \<and> patches_of L_ex x_ex = Inr \<lparr>t3_shape = (1, 1, 6), t3_data = [[[9, 19, 4, 6, 8, 18]]]\<rparr>
   \<and> fst (snd (t3_shape \<lparr>t3_shape = (1, 1, 6), t3_data = [[[9, 19, 4, 6, 8, 18]]]\<rparr>))
        \<noteq> nat (output_stabilizer_size L_ex) * nat 1 * nat 1
   \<and> forward call_plain L_ex x_ex [] = (Inl RuntimeError, [])"
proof -
  have "out_len 1 (fst (padding L_ex)) (fst (dilation L_ex)) (fst (kernel_size L_ex))
        (fst (stride L_ex)) = Inr 1"
    "out_len 2 (snd (padding L_ex)) (snd (dilation L_ex)) (snd (kernel_size L_ex))
        (snd (stride L_ex)) = Inr 1"
    by (simp_all add: out_len_div L_ex_def)
  moreover have "(input_stabilizer_size L_ex, output_stabilizer_size L_ex) = (1, 4)"
    "in_channels L_ex = 3" "t4_shape x_ex = (1, 1, 2, 3)"
    by (simp_all add: L_ex_def x_ex_def)
  ultimately show ?thesis
    using patches_of_ex forward_plain_ex by simp
qed

theorem forward_result_shape_witness:
  "t4_shape x_ex = (1, 1, 2, 3)
   \<and> (input_stabilizer_size L_ex, output_stabilizer_size L_ex) \<in> supported_pairs
   \<and> 0 \<le> out_channels L_ex
   \<and> patches_of L_ex x_ex = Inr \<lparr>t3_shape = (1, 1, 6), t3_data = [[[9, 19, 4, 6, 8, 18]]]\<rparr>
   \<and> forward call_ex L_ex x_ex [] =
       (Inr \<lparr>t_shape = [1, 4, 1, 1, 2], t_data = replicate 8 57\<rparr>, [(''final'', [1, 4, 1, 1, 2])])
   \<and> call_plain (linearized_kernel L_ex) (pre_kernel L_ex x_ex)
       = Inr \<lparr>t_shape = [1, 1, 2], t_data = replicate 2 57\<rparr>
   \<and> prod_list [1, 1, 2]
       \<noteq> 1 * nat (output_stabilizer_size L_ex) * nat (h_out_of L_ex 1) * nat (w_out_of L_ex 2)
           * nat (out_channels L_ex)
   \<and> (\<exists>ot. call_ex (linearized_kernel L_ex) (pre_kernel L_ex x_ex) = Inr ot
          \<and> prod_list (t_shape ot) = 8)
   \<and> (\<exists>e. forward call_plain L_ex x_ex [] = (Inl e, []))"
proof -
  have sh: "t4_shape x_ex = (1, 1, 2, 3)" by (simp add: x_ex_def)
  have sup: "(input_stabilizer_size L_ex, output_stabilizer_size L_ex) \<in> supported_pairs"
    by (simp add: L_ex_def supported_pairs_def)
  have oc: "0 \<le> out_channels L_ex" "out_channels L_ex = 2" "output_stabilizer_size L_ex = 4"
    by (simp_all add: L_ex_def)
  have c: "call_plain (linearized_kernel L_ex) (pre_kernel L_ex x_ex)
            = Inr \<lparr>t_shape = [1, 1, 2], t_data = replicate 2 57\<rparr>"
    unfolding pre_kernel_ex by (simp add: call_plain_def L_ex_def)
  have ne: "prod_list (t_shape \<lparr>t_shape = [1, 1, 2], t_data = replicate 2 57\<rparr>)
       \<noteq> 1 * nat (output_stabilizer_size L_ex) * nat (h_out_of L_ex 1) * nat (w_out_of L_ex 2)
           * nat (out_channels L_ex)"
    using h_out_ex by (simp add: oc)
  have ol: "out_len 1 (fst (padding L_ex)) (fst (dilation L_ex)) (fst (kernel_size L_ex))
        (fst (stride L_ex)) = Inr 1"
    "out_len 2 (snd (padding L_ex)) (snd (dilation L_ex)) (snd (kernel_size L_ex))
        (snd (stride L_ex)) = Inr 1"
    by (simp_all add: out_len_div L_ex_def)
  note T1 = forward_result_shape [of x_ex 1 1 2 3 L_ex
      "\<lparr>t3_shape = (1, 1, 6), t3_data = [[[9, 19, 4, 6, 8, 18]]]\<rparr>" call_ex "[]"
      "\<lparr>t_shape = [1, 4, 1, 1, 2], t_data = replicate 8 57\<rparr>" "[(''final'', [1, 4, 1, 1, 2])]"
      "\<lparr>t_shape = [1, 1, 2], t_data = replicate 2 57\<rparr>"]
  note T2 = forward_result_shape [of x_ex 1 1 2 3 L_ex
      "\<lparr>t3_shape = (1, 1, 6), t3_data = [[[9, 19, 4, 6, 8, 18]]]\<rparr>" call_plain "[]"
      "\<lparr>t_shape = [1, 4, 1, 1, 2], t_data = replicate 8 57\<rparr>" "[(''final'', [1, 4, 1, 1, 2])]"
      "\<lparr>t_shape = [1, 1, 2], t_data = replicate 2 57\<rparr>"]
  have E1: "\<exists>ot. call_ex (linearized_kernel L_ex) (pre_kernel L_ex x_ex) = Inr ot
          \<and> prod_list (t_shape ot) = 8"
    using T1 sh sup oc(1) forward_ex ol by (auto simp: oc)
  have E2: "\<exists>e. forward call_plain L_ex x_ex [] = (Inl e, [])"
    using T2 sh sup oc(1) c ne by blast
  show ?thesis
    using sh sup oc(1) patches_of_ex forward_ex c ne E1 E2 by simp
qed



section \<open>The rescaled time\<close>

lemma extract_rowD:
  assumes e: "extract_lorentz_patches L P = Inr Q"
    and i: "i < length (t3_data P)" and j: "j < length (t3_data P ! i)"
  shows "0 \<le> kernel_len L \<and> 1 < in_channels L
     \<and> kernel_len L \<le> int (snd (snd (t3_shape P)))
     \<and> t3_data Q ! i ! j =
         lorentz_row (manifold_k L) (nat (kernel_len L)) (nat (in_channels L - 1))
           (snd (snd (t3_shape P))) (t3_data P ! i ! j)"
proof -
  obtain a b D where sh: "t3_shape P = (a, b, D)" by (cases "t3_shape P") auto
  show ?thesis
    using e i j unfolding extract_lorentz_patches_eq [OF sh]
    by (auto simp: sh split: if_splits)
qed

lemma time_radicand_clamped:
  "time_radicand k klen (map (\<lambda>v. max v s) ts)
     = sum_list (map (\<lambda>v. (max v s)\<^sup>2) ts) - real_of_int (klen - 1) * k"
  by (simp add: time_radicand_def o_def)

lemma sum_squares_replicate:
  "sum_list (map (\<lambda>v. (max v s)\<^sup>2) (replicate n t)) = real n * (max t s)\<^sup>2"
  by (induction n) (simp_all add: algebra_simps)

lemma sum_squares_lower:
  assumes "0 \<le> k"
  shows "real (length ts) * k \<le> sum_list (map (\<lambda>v. (max v (sqrt k))\<^sup>2) ts)"
proof (induction ts)
  case Nil
  show ?case by simp
next
  case (Cons v ts)
  have "sqrt k \<le> max v (sqrt k)" by simp
  moreover have "0 \<le> sqrt k" using assms by simp
  ultimately have "(sqrt k)\<^sup>2 \<le> (max v (sqrt k))\<^sup>2"
    by (rule power_mono)
  then have "k \<le> (max v (sqrt k))\<^sup>2" using assms by simp
  with Cons show ?case by (simp add: algebra_simps)
qed

text \<open>
  Claim C1. In every patch the first entry of the result of \<open>extract_lorentz_patches\<close>,
  the rescaled time, is the square root of the sum of the squares of the first
  \<open>kernel_len\<close> entries, each clamped to be at least \<open>sqrt k\<close>, minus
  \<open>(kernel_len - 1) * k\<close>. When these entries are all equal to some \<open>t \<ge> sqrt k\<close> it
  is \<open>sqrt (kernel_len * t\<^sup>2 - (kernel_len - 1) * k)\<close>, and for \<open>t = sqrt k\<close> it is
  \<open>sqrt k\<close>.
\<close>

theorem rescaled_time_value:
  "(extract_lorentz_patches L P = Inr Q \<and> i < length (t3_data P)
      \<and> j < length (t3_data P ! i) \<longrightarrow>
      hd (t3_data Q ! i ! j) =
        sqrt (sum_list (map (\<lambda>v. (max v (sqrt (manifold_k L)))\<^sup>2)
                            (take (nat (kernel_len L)) (t3_data P ! i ! j)))
              - real_of_int (kernel_len L - 1) * manifold_k L))
   \<and> (extract_lorentz_patches L P = Inr Q \<and> i < length (t3_data P)
      \<and> j < length (t3_data P ! i) \<and> sqrt (manifold_k L) \<le> t
      \<and> take (nat (kernel_len L)) (t3_data P ! i ! j) = replicate (nat (kernel_len L)) t \<longrightarrow>
      hd (t3_data Q ! i ! j) =
        sqrt (real_of_int (kernel_len L) * t\<^sup>2 - real_of_int (kernel_len L - 1) * manifold_k L))
   \<and> (extract_lorentz_patches L P = Inr Q \<and> i < length (t3_data P)
      \<and> j < length (t3_data P ! i) \<and> 0 \<le> manifold_k L
      \<and> take (nat (kernel_len L)) (t3_data P ! i ! j)
          = replicate (nat (kernel_len L)) (sqrt (manifold_k L)) \<longrightarrow>
      hd (t3_data Q ! i ! j) = sqrt (manifold_k L))"
proof -
  let ?k = "manifold_k L" and ?kl = "kernel_len L" and ?r = "t3_data P ! i ! j"
  have A: "hd (t3_data Q ! i ! j) =
        sqrt (sum_list (map (\<lambda>v. (max v (sqrt ?k))\<^sup>2) (take (nat ?kl) ?r))
              - real_of_int (?kl - 1) * ?k) \<and> 0 \<le> ?kl"
    if "extract_lorentz_patches L P = Inr Q" "i < length (t3_data P)"
      "j < length (t3_data P ! i)"
    using extract_rowD [OF that]
    by (simp add: lorentz_row_def time_radicand_clamped)
  have B: "hd (t3_data Q ! i ! j) =
        sqrt (real_of_int ?kl * t\<^sup>2 - real_of_int (?kl - 1) * ?k)"
    if e: "extract_lorentz_patches L P = Inr Q" "i < length (t3_data P)"
      "j < length (t3_data P ! i)" and t: "sqrt ?k \<le> t"
      and rep: "take (nat ?kl) ?r = replicate (nat ?kl) t"
  proof -
    have "max t (sqrt ?k) = t" using t by simp
    moreover have "real (nat ?kl) = real_of_int ?kl" using A [OF e] by simp
    ultimately have "sum_list (map (\<lambda>v. (max v (sqrt ?k))\<^sup>2) (take (nat ?kl) ?r))
        = real_of_int ?kl * t\<^sup>2"
      unfolding rep sum_squares_replicate by simp
    then show ?thesis using A [OF e] by simp
  qed
  have C: "hd (t3_data Q ! i ! j) = sqrt ?k"
    if e: "extract_lorentz_patches L P = Inr Q" "i < length (t3_data P)"
      "j < length (t3_data P ! i)" and k: "0 \<le> ?k"
      and rep: "take (nat ?kl) ?r = replicate (nat ?kl) (sqrt ?k)"
  proof -
    have "real (nat ?kl) = real_of_int ?kl" using A [OF e] by simp
    moreover have "(sqrt ?k)\<^sup>2 = ?k" using k by simp
    moreover have "real_of_int ?kl * ?k - real_of_int (?kl - 1) * ?k = ?k"
      by (simp add: algebra_simps)
    ultimately have "sum_list (map (\<lambda>v. (max v (sqrt ?k))\<^sup>2) (take (nat ?kl) ?r))
          - real_of_int (?kl - 1) * ?k = ?k"
      unfolding rep sum_squares_replicate by simp
    then show ?thesis using A [OF e] by simp
  qed
  show ?thesis using A B C by blast
qed

text \<open>
  In exact real arithmetic, for a positive curvature \<open>k\<close> and a patch that holds its
  \<open>kernel_len\<close> time taps, the radicand of the rescale step is at least \<open>k\<close> and the
  rescaled time at least \<open>sqrt k\<close>. This is a fact about the formula; the rounded machine
  arithmetic of the program can fall below both bounds.
\<close>

lemma radicand_at_least_curvature:
  "0 < manifold_k L \<and> extract_lorentz_patches L P = Inr Q \<and> i < length (t3_data P)
     \<and> j < length (t3_data P ! i) \<and> nat (kernel_len L) \<le> length (t3_data P ! i ! j) \<longrightarrow>
   manifold_k L
     \<le> time_radicand (manifold_k L) (kernel_len L)
          (map (\<lambda>v. max v (sqrt (manifold_k L))) (take (nat (kernel_len L)) (t3_data P ! i ! j)))
   \<and> hd (t3_data Q ! i ! j)
       = sqrt (time_radicand (manifold_k L) (kernel_len L)
           (map (\<lambda>v. max v (sqrt (manifold_k L)))
              (take (nat (kernel_len L)) (t3_data P ! i ! j))))
   \<and> sqrt (manifold_k L) \<le> hd (t3_data Q ! i ! j)"
proof (intro impI, elim conjE)
  let ?k = "manifold_k L" and ?kl = "kernel_len L" and ?r = "t3_data P ! i ! j"
  assume k: "0 < ?k" and e: "extract_lorentz_patches L P = Inr Q"
    and i: "i < length (t3_data P)" and j: "j < length (t3_data P ! i)"
    and len: "nat ?kl \<le> length ?r"
  note D = extract_rowD [OF e i j]
  have kl: "0 \<le> ?kl" using D by simp
  have hd: "hd (t3_data Q ! i ! j)
      = sqrt (time_radicand ?k ?kl (map (\<lambda>v. max v (sqrt ?k)) (take (nat ?kl) ?r)))"
    using D kl by (simp add: lorentz_row_def)
  have "real (length (take (nat ?kl) ?r)) * ?k
          \<le> sum_list (map (\<lambda>v. (max v (sqrt ?k))\<^sup>2) (take (nat ?kl) ?r))"
    by (rule sum_squares_lower) (use k in simp)
  moreover have "real (length (take (nat ?kl) ?r)) = real_of_int ?kl"
    using len kl by simp
  ultimately have "real_of_int ?kl * ?k - real_of_int (?kl - 1) * ?k
      \<le> time_radicand ?k ?kl (map (\<lambda>v. max v (sqrt ?k)) (take (nat ?kl) ?r))"
    by (simp add: time_radicand_clamped)
  then have ge: "?k \<le> time_radicand ?k ?kl (map (\<lambda>v. max v (sqrt ?k)) (take (nat ?kl) ?r))"
    by (simp add: algebra_simps)
  then have "sqrt ?k \<le> hd (t3_data Q ! i ! j)"
    unfolding hd by (rule real_sqrt_le_mono)
  with ge hd show "?k \<le> time_radicand ?k ?kl (map (\<lambda>v. max v (sqrt ?k)) (take (nat ?kl) ?r))
   \<and> hd (t3_data Q ! i ! j)
       = sqrt (time_radicand ?k ?kl (map (\<lambda>v. max v (sqrt ?k)) (take (nat ?kl) ?r)))
   \<and> sqrt ?k \<le> hd (t3_data Q ! i ! j)"
    by blast
qed


lemma sqrt_49: "sqrt 49 = 7"
  by (rule real_sqrt_unique) simp_all

lemma L_ex_fields:
  "manifold_k L_ex = 1" "kernel_len L_ex = 2" "in_channels L_ex = 3"
  by (simp_all add: L_ex_def)

lemma extract_ex:
  "extract_lorentz_patches L_ex P_ex
     = Inr \<lparr>t3_shape = (1, 1, 5), t3_data = [[[21, 4, 8, 6, 18]]]\<rparr>"
proof -
  have sh: "t3_shape P_ex = (1, 1, 6)" by (simp add: P_ex_def)
  show ?thesis
    unfolding extract_lorentz_patches_eq [OF sh]
    by (simp add: L_ex_fields P_ex_def lorentz_row_ex)
qed

lemma extract_same:
  "extract_lorentz_patches L_ex P_same
     = Inr \<lparr>t3_shape = (1, 1, 5), t3_data = [[[7, 4, 8, 6, 18]]]\<rparr>"
proof -
  have sh: "t3_shape P_same = (1, 1, 6)" by (simp add: P_same_def)
  have row: "lorentz_row 1 2 2 6 [5, 5, 4, 6, 8, 18] = [7, 4, 8, 6, 18]"
    by (simp add: lorentz_row_def time_radicand_def regroup_row_def transpose_2d_def
        reshape_rows_def upt2 sqrt_49)
  show ?thesis
    unfolding extract_lorentz_patches_eq [OF sh]
    by (simp add: L_ex_fields P_same_def row)
qed

lemma extract_min:
  "extract_lorentz_patches L_ex P_min
     = Inr \<lparr>t3_shape = (1, 1, 5), t3_data = [[[1, 4, 8, 6, 18]]]\<rparr>"
proof -
  have sh: "t3_shape P_min = (1, 1, 6)" by (simp add: P_min_def)
  have row: "lorentz_row 1 2 2 6 [1, 1, 4, 6, 8, 18] = [1, 4, 8, 6, 18]"
    by (simp add: lorentz_row_def time_radicand_def regroup_row_def transpose_2d_def
        reshape_rows_def upt2)
  show ?thesis
    unfolding extract_lorentz_patches_eq [OF sh]
    by (simp add: L_ex_fields P_min_def row)
qed

theorem rescaled_time_value_witness:
  "extract_lorentz_patches L_ex P_ex
     = Inr \<lparr>t3_shape = (1, 1, 5), t3_data = [[[21, 4, 8, 6, 18]]]\<rparr>
   \<and> 0 < length (t3_data P_ex) \<and> 0 < length (t3_data P_ex ! 0)
   \<and> hd (t3_data \<lparr>t3_shape = (1, 1, 5), t3_data = [[[21, 4, 8, 6, 18]]]\<rparr> ! 0 ! 0)
       = sqrt (9\<^sup>2 + 19\<^sup>2 - 1)
   \<and> extract_lorentz_patches L_ex P_same
       = Inr \<lparr>t3_shape = (1, 1, 5), t3_data = [[[7, 4, 8, 6, 18]]]\<rparr>
   \<and> sqrt (manifold_k L_ex) \<le> 5
   \<and> take (nat (kernel_len L_ex)) (t3_data P_same ! 0 ! 0) = replicate (nat (kernel_len L_ex)) 5
   \<and> hd (t3_data \<lparr>t3_shape = (1, 1, 5), t3_data = [[[7, 4, 8, 6, 18]]]\<rparr> ! 0 ! 0)
       = sqrt (2 * 5\<^sup>2 - 1)
   \<and> extract_lorentz_patches L_ex P_min
       = Inr \<lparr>t3_shape = (1, 1, 5), t3_data = [[[1, 4, 8, 6, 18]]]\<rparr>
   \<and> 0 \<le> manifold_k L_ex
   \<and> take (nat (kernel_len L_ex)) (t3_data P_min ! 0 ! 0)
       = replicate (nat (kernel_len L_ex)) (sqrt (manifold_k L_ex))
   \<and> hd (t3_data \<lparr>t3_shape = (1, 1, 5), t3_data = [[[1, 4, 8, 6, 18]]]\<rparr> ! 0 ! 0)
       = sqrt (manifold_k L_ex)"
proof -
  have l: "0 < length (t3_data P_ex)" "0 < length (t3_data P_ex ! 0)"
    "0 < length (t3_data P_same)" "0 < length (t3_data P_same ! 0)"
    "0 < length (t3_data P_min)" "0 < length (t3_data P_min ! 0)"
    by (simp_all add: P_ex_def P_same_def P_min_def)
  have t5: "sqrt (manifold_k L_ex) \<le> 5" "0 \<le> manifold_k L_ex"
    by (simp_all add: L_ex_fields)
  have r5: "take (nat (kernel_len L_ex)) (t3_data P_same ! 0 ! 0)
              = replicate (nat (kernel_len L_ex)) 5"
    by (simp add: L_ex_fields P_same_def numeral_2_eq_2)
  have r1: "take (nat (kernel_len L_ex)) (t3_data P_min ! 0 ! 0)
              = replicate (nat (kernel_len L_ex)) (sqrt (manifold_k L_ex))"
    by (simp add: L_ex_fields P_min_def numeral_2_eq_2)
  have a: "hd (t3_data \<lparr>t3_shape = (1, 1, 5), t3_data = [[[21, 4, 8, 6, 18]]]\<rparr> ! 0 ! 0)
       = sqrt (9\<^sup>2 + 19\<^sup>2 - 1)"
    using rescaled_time_value [of L_ex P_ex
        "\<lparr>t3_shape = (1, 1, 5), t3_data = [[[21, 4, 8, 6, 18]]]\<rparr>" 0 0 5]
      extract_ex l
    by (simp add: L_ex_fields P_ex_def)
  have b: "hd (t3_data \<lparr>t3_shape = (1, 1, 5), t3_data = [[[7, 4, 8, 6, 18]]]\<rparr> ! 0 ! 0)
       = sqrt (2 * 5\<^sup>2 - 1)"
    using rescaled_time_value [of L_ex P_same
        "\<lparr>t3_shape = (1, 1, 5), t3_data = [[[7, 4, 8, 6, 18]]]\<rparr>" 0 0 5]
      extract_same l t5 r5
    by (simp add: L_ex_fields)
  have c: "hd (t3_data \<lparr>t3_shape = (1, 1, 5), t3_data = [[[1, 4, 8, 6, 18]]]\<rparr> ! 0 ! 0)
       = sqrt (manifold_k L_ex)"
    using rescaled_time_value [of L_ex P_min
        "\<lparr>t3_shape = (1, 1, 5), t3_data = [[[1, 4, 8, 6, 18]]]\<rparr>" 0 0 5]
      extract_min l t5 r1
    by (simp add: L_ex_fields)
  show ?thesis
    using extract_ex extract_same extract_min l t5 r5 r1 a b c by simp
qed

section \<open>The order of the spatial block\<close>

lemma chw_nth:
  assumes "ch < c" "y < length img" "x < length (img ! y)"
  shows "chw c img ! ch ! y ! x = img ! y ! x ! ch"
  using assms by (simp add: chw_def)

lemma tap_pixel:
  assumes img: "length img = h" "\<forall>row \<in> set img. length row = w"
    and ch: "ch < c" and t: "t < nat (fst (kernel_size L)) * nat (snd (kernel_size L))"
  shows "tap (chw c img) h w (kernel_size L) (dilation L) (padding L) (stride L)
           (nat (w_out_of L w))
           (ch * (nat (fst (kernel_size L)) * nat (snd (kernel_size L))) + t) l
         = pixel_at L h w img l t ch"
proof -
  let ?kh = "nat (fst (kernel_size L))" and ?kw = "nat (snd (kernel_size L))"
  let ?d = "ch * (?kh * ?kw) + t"
  have Kpos: "0 < ?kh * ?kw" using t by linarith
  have d1: "?d div (?kh * ?kw) = ch" using t Kpos by simp
  have d2: "?d mod (?kh * ?kw) = t" using t Kpos by simp
  have "?d = t + (ch * ?kh) * ?kw" by simp
  then have d3: "?d mod ?kw = t mod ?kw"
    by (simp only: mod_mult_self1)
  let ?y = "int (l div nat (w_out_of L w)) * fst (stride L) - fst (padding L)
                + int (t div ?kw) * fst (dilation L)"
  let ?x = "int (l mod nat (w_out_of L w)) * snd (stride L) - snd (padding L)
                + int (t mod ?kw) * snd (dilation L)"
  have tapd: "tap (chw c img) h w (kernel_size L) (dilation L) (padding L) (stride L)
           (nat (w_out_of L w)) ?d l
      = (if 0 \<le> ?y \<and> ?y < int h \<and> 0 \<le> ?x \<and> ?x < int w
         then chw c img ! ch ! nat ?y ! nat ?x else 0)"
    unfolding tap_def Let_def d1 d2 d3 ..
  have pixd: "pixel_at L h w img l t ch
      = (if 0 \<le> ?y \<and> ?y < int h \<and> 0 \<le> ?x \<and> ?x < int w
         then img ! nat ?y ! nat ?x ! ch else 0)"
    unfolding pixel_at_def Let_def ..
  show ?thesis
  proof (cases "0 \<le> ?y \<and> ?y < int h \<and> 0 \<le> ?x \<and> ?x < int w")
    case True
    have nat_lt: "nat v < m" if "0 \<le> v" "v < int m" for v m
      using that by simp
    from True have hy: "0 \<le> ?y" "?y < int h" and hx: "0 \<le> ?x" "?x < int w"
      by (rule conjunct1, (rule conjunct2 [THEN conjunct1]),
          (rule conjunct2 [THEN conjunct2, THEN conjunct1]),
          (rule conjunct2 [THEN conjunct2, THEN conjunct2]))
    have y: "nat ?y < length img"
      unfolding img(1) by (rule nat_lt [OF hy])
    then have "img ! nat ?y \<in> set img" by (rule nth_mem)
    then have lw: "length (img ! nat ?y) = w" using img(2) by blast
    have x: "nat ?x < length (img ! nat ?y)"
      unfolding lw by (rule nat_lt [OF hx])
    show ?thesis
      unfolding tapd pixd if_P [OF True] by (rule chw_nth [OF ch y x])
  next
    case False
    show ?thesis
      unfolding tapd pixd if_not_P [OF False] ..
  qed
qed

lemma map_upt_blocks:
  "map f [m..<Suc c * m] = concat (map (\<lambda>ch. map (\<lambda>t. f (ch * m + t)) [0..<m]) [1..<Suc c])"
proof (induction c)
  case 0
  show ?case by simp
next
  case (Suc c)
  have e: "Suc (Suc c) * m = Suc c * m + m" by simp
  have le: "m \<le> Suc c * m" by simp
  have split: "[m..<Suc (Suc c) * m] = [m..<Suc c * m] @ [Suc c * m..<Suc c * m + m]"
    unfolding e by (rule upt_add_eq_append [OF le])
  have "[Suc c * m..<Suc c * m + m] = map (\<lambda>t. t + Suc c * m) [0..<m]"
    by (simp only: map_add_upt add.commute)
  then have last: "map f [Suc c * m..<Suc c * m + m] = map (\<lambda>t. f (Suc c * m + t)) [0..<m]"
    by (simp add: o_def add.commute)
  have "[1..<Suc (Suc c)] = [1..<Suc c] @ [Suc c]" by simp
  then show ?case
    unfolding split by (simp only: map_append concat_append Suc last) simp
qed

lemma regroup_row_eq:
  assumes "length r = c * m"
  shows "regroup_row c m r = concat (map (\<lambda>t. map (\<lambda>i. r ! (i * m + t)) [0..<c]) [0..<m])"
proof -
  have "reshape_rows c m r ! i ! t = r ! (i * m + t)" if "i < c" "t < m" for i t
  proof -
    have "Suc i * m \<le> c * m"
      using that(1) by (intro mult_le_mono1) simp
    then have "i * m + m \<le> c * m" by simp
    then have "i * m \<le> length r" using assms by linarith
    then show ?thesis using that by (simp add: reshape_rows_def)
  qed
  then show ?thesis
    unfolding regroup_row_def transpose_2d_def
    by (auto intro!: arg_cong [where f = concat] map_cong)
qed


lemma patches_of_InrD:
  assumes sh: "t4_shape x = (n, h, w, c)" and p: "patches_of L x = Inr P"
  shows "unfold_args_ok (kernel_size L) (dilation L) (padding L) (stride L)"
    and "c \<noteq> 0" and "1 \<le> h_out_of L h" and "1 \<le> w_out_of L w"
    and "t3_shape P = (n, nat (h_out_of L h * w_out_of L w), patch_width L c)"
    and "t3_data P = map (\<lambda>img. map (patch_row L h w c img)
                                 [0..<nat (h_out_of L h * w_out_of L w)]) (t4_data x)"
  using p unfolding patches_of_eq [OF sh]
  by (auto simp: Let_def h_out_of_def w_out_of_def patch_width_def patch_row_def
        split: if_splits)

lemma wf4_img:
  assumes "wf4 x" "t4_shape x = (n, h, w, c)" "i < n"
  shows "length (t4_data x) = n" "length (t4_data x ! i) = h"
    "\<forall>row \<in> set (t4_data x ! i). length row = w"
  using assms by (auto simp: wf4_def list_all_iff list_all_length)

lemma patch_row_spatial:
  assumes img: "length img = h" "\<forall>row \<in> set img. length row = w"
    and kl: "nat (kernel_len L) = nat (fst (kernel_size L)) * nat (snd (kernel_size L))"
    and pw: "patch_width L c = c * nat (kernel_len L)" and c: "0 < c"
  shows "drop (nat (kernel_len L)) (patch_row L h w c img l) = channel_major_block L h w c img l"
proof -
  let ?kl = "nat (kernel_len L)"
  let ?f = "\<lambda>d. tap (chw c img) h w (kernel_size L) (dilation L) (padding L) (stride L)
                 (nat (w_out_of L w)) d l"
  obtain c' where c': "c = Suc c'" using c by (cases c) auto
  have "drop ?kl (patch_row L h w c img l) = map ?f [?kl..<Suc c' * ?kl]"
    using pw c' by (simp add: patch_row_def drop_map)
  also have "\<dots> = concat (map (\<lambda>ch. map (\<lambda>t. ?f (ch * ?kl + t)) [0..<?kl]) [1..<Suc c'])"
    by (rule map_upt_blocks)
  also have "\<dots> = concat (map (\<lambda>ch. map (\<lambda>t. pixel_at L h w img l t ch) [0..<?kl]) [1..<Suc c'])"
  proof (intro arg_cong [where f = concat] map_cong refl)
    fix ch t assume "ch \<in> set [1..<Suc c']" "t \<in> set [0..<?kl]"
    then have "ch < c" "t < nat (fst (kernel_size L)) * nat (snd (kernel_size L))"
      using c' kl by auto
    from tap_pixel [OF img this, of l] show "?f (ch * ?kl + t) = pixel_at L h w img l t ch"
      unfolding kl .
  qed
  finally show ?thesis unfolding channel_major_block_def c' .
qed

lemma lorentz_row_spatial:
  assumes img: "length img = h" "\<forall>row \<in> set img. length row = w"
    and kl: "nat (kernel_len L) = nat (fst (kernel_size L)) * nat (snd (kernel_size L))"
    and pw: "patch_width L c = c * nat (kernel_len L)" and c: "1 < c"
  shows "tl (lorentz_row k (nat (kernel_len L)) (c - 1) (patch_width L c)
               (patch_row L h w c img l)) = tap_major_block L h w c img l"
proof -
  let ?kl = "nat (kernel_len L)"
  let ?r = "drop ?kl (patch_row L h w c img l)"
  have lenp: "length (patch_row L h w c img l) = c * ?kl"
    by (simp add: patch_row_def pw)
  have D: "patch_width L c - ?kl = (c - 1) * ?kl"
    unfolding pw by (simp add: algebra_simps)
  have dv: "((c - 1) * ?kl) div (c - 1) = ?kl" using c by simp
  have lenr: "length ?r = (c - 1) * ?kl" using lenp by (simp add: algebra_simps)
  have tk: "take ((c - 1) * ?kl) ?r = ?r" using lenr by simp
  have r: "?r = channel_major_block L h w c img l"
    by (rule patch_row_spatial [OF img kl pw]) (use c in simp)
  have nth: "?r ! (i * ?kl + t) = pixel_at L h w img l t (Suc i)" if "i < c - 1" "t < ?kl" for i t
  proof -
    have le: "?kl \<le> length (patch_row L h w c img l)" using lenp c by simp
    have "Suc i * ?kl + t < c * ?kl"
    proof -
      have "Suc (Suc i) * ?kl \<le> c * ?kl" using that(1) by (intro mult_le_mono1) simp
      then show ?thesis using that(2) by simp
    qed
    then have lt: "Suc i * ?kl + t < patch_width L c" unfolding pw .
    have "?r ! (i * ?kl + t) = patch_row L h w c img l ! (Suc i * ?kl + t)"
      using le by (simp add: algebra_simps)
    also have "\<dots> = tap (chw c img) h w (kernel_size L) (dilation L) (padding L) (stride L)
                 (nat (w_out_of L w)) (Suc i * ?kl + t) l"
      unfolding patch_row_def using lt by simp
    also have "\<dots> = pixel_at L h w img l t (Suc i)"
    proof -
      have "Suc i < c" "t < nat (fst (kernel_size L)) * nat (snd (kernel_size L))"
        using that kl by simp_all
      from tap_pixel [OF img this, of l] show ?thesis unfolding kl .
    qed
    finally show ?thesis .
  qed
  have "tl (lorentz_row k ?kl (c - 1) (patch_width L c) (patch_row L h w c img l))
          = regroup_row (c - 1) ?kl ?r"
    unfolding lorentz_row_def list.sel D dv tk ..
  also have "\<dots> = concat (map (\<lambda>t. map (\<lambda>i. ?r ! (i * ?kl + t)) [0..<c - 1]) [0..<?kl])"
    by (rule regroup_row_eq [OF lenr])
  also have "\<dots> = concat (map (\<lambda>t. map (\<lambda>i. pixel_at L h w img l t (Suc i)) [0..<c - 1]) [0..<?kl])"
    by (intro arg_cong [where f = concat] map_cong refl) (simp add: nth)
  also have "\<dots> = concat (map (\<lambda>t. map (\<lambda>ch. pixel_at L h w img l t ch) (map Suc [0..<c - 1]))
                               [0..<?kl])"
    by (simp add: o_def)
  also have "map Suc [0..<c - 1] = [1..<c]"
    using c by (simp add: map_Suc_upt)
  finally show ?thesis unfolding tap_major_block_def .
qed


text \<open>
  Claim C3, amended. For a well-formed input with \<open>in_channels\<close> channels, the spatial
  entries of each patch (all entries after the first \<open>kernel_len\<close>) come out of the
  extraction in channel-major order, and \<open>extract_lorentz_patches\<close> permutes them to
  tap-major order: in the vector handed to the linear collaborator, after the rescaled
  time, all spatial channels of one kernel tap are contiguous.
\<close>

theorem spatial_block_order:
  "wf4 x \<and> t4_shape x = (n, h, w, c)
     \<and> kernel_len L = fst (kernel_size L) * snd (kernel_size L) \<and> in_channels L = int c
     \<and> patches_of L x = Inr P \<and> extract_lorentz_patches L P = Inr Q
     \<and> i < length (t3_data P) \<and> l < length (t3_data P ! i) \<longrightarrow>
   drop (nat (kernel_len L)) (t3_data P ! i ! l)
     = channel_major_block L h w c (t4_data x ! i) l
   \<and> tl (t3_data Q ! i ! l) = tap_major_block L h w c (t4_data x ! i) l"
proof (intro impI, elim conjE)
  assume wf: "wf4 x" and sh: "t4_shape x = (n, h, w, c)"
    and kl: "kernel_len L = fst (kernel_size L) * snd (kernel_size L)"
    and ic: "in_channels L = int c"
    and p: "patches_of L x = Inr P" and e: "extract_lorentz_patches L P = Inr Q"
    and i: "i < length (t3_data P)" and l: "l < length (t3_data P ! i)"
  note D = patches_of_InrD [OF sh p]
  have ks: "0 < fst (kernel_size L)" "0 < snd (kernel_size L)"
    using D(1) by (simp_all add: unfold_args_ok_def)
  have kl': "nat (kernel_len L) = nat (fst (kernel_size L)) * nat (snd (kernel_size L))"
    unfolding kl using ks by (simp add: nat_mult_distrib)
  have pw: "patch_width L c = c * nat (kernel_len L)"
    by (simp add: patch_width_def kl)
  have i': "i < n" using i wf sh by (simp add: D(6) wf4_def)
  note img = wf4_img(2,3) [OF wf sh i']
  have len: "length (t4_data x) = n" using wf4_img(1) [OF wf sh i'] .
  have l': "l < nat (h_out_of L h * w_out_of L w)"
    using l i' len by (simp add: D(6))
  have row: "t3_data P ! i ! l = patch_row L h w c (t4_data x ! i) l"
    using i' len l' by (simp add: D(6))
  note R = extract_rowD [OF e i l]
  have c1: "1 < c" using R ic by simp
  have c0: "0 < c" using c1 by simp
  have cm: "nat (in_channels L - 1) = c - 1" using ic by simp
  have A: "drop (nat (kernel_len L)) (t3_data P ! i ! l)
     = channel_major_block L h w c (t4_data x ! i) l"
    unfolding row by (rule patch_row_spatial [OF img kl' pw c0])
  have "t3_data Q ! i ! l = lorentz_row (manifold_k L) (nat (kernel_len L)) (c - 1)
           (patch_width L c) (patch_row L h w c (t4_data x ! i) l)"
    using R by (simp add: cm D(5) row)
  then have B: "tl (t3_data Q ! i ! l) = tap_major_block L h w c (t4_data x ! i) l"
    using lorentz_row_spatial [OF img kl' pw c1, of "manifold_k L" l] by simp
  from A B show "drop (nat (kernel_len L)) (t3_data P ! i ! l)
     = channel_major_block L h w c (t4_data x ! i) l
   \<and> tl (t3_data Q ! i ! l) = tap_major_block L h w c (t4_data x ! i) l" ..
qed

lemma pixel_at_ex:
  "pixel_at L_ex (Suc 0) 2 [[[9, 4, 8], [19, 6, 18]]] 0 0 ch = [9, 4, 8] ! ch"
  "pixel_at L_ex (Suc 0) 2 [[[9, 4, 8], [19, 6, 18]]] 0 (Suc 0) ch = [19, 6, 18] ! ch"
  using h_out_ex(2) by (simp_all add: pixel_at_def L_ex_def Let_def)

lemma blocks_ex:
  "channel_major_block L_ex (Suc 0) 2 3 [[[9, 4, 8], [19, 6, 18]]] 0 = [4, 6, 8, 18]"
  "tap_major_block L_ex (Suc 0) 2 3 [[[9, 4, 8], [19, 6, 18]]] 0 = [4, 8, 6, 18]"
proof -
  have u: "[1..<3] = [Suc 0, 2]" "[0..<2] = [0, Suc 0]" by (simp_all add: upt_rec)
  have k: "nat (kernel_len L_ex) = 2" by (simp add: L_ex_def)
  show "channel_major_block L_ex (Suc 0) 2 3 [[[9, 4, 8], [19, 6, 18]]] 0 = [4, 6, 8, 18]"
    unfolding channel_major_block_def k u by (simp add: pixel_at_ex)
  show "tap_major_block L_ex (Suc 0) 2 3 [[[9, 4, 8], [19, 6, 18]]] 0 = [4, 8, 6, 18]"
    unfolding tap_major_block_def k u by (simp add: pixel_at_ex)
qed

lemma wf4_ex: "wf4 x_ex"
  by (simp add: wf4_def x_ex_def)

text \<open>
  Claim C3 as stated fails: for the example input the spatial part of the vector handed
  to the collaborator is \<open>[4, 8, 6, 18]\<close>, not the channel-major block
  \<open>[4, 6, 8, 18]\<close>; the two taps 4 and 6 of the first spatial channel are not adjacent.
\<close>

theorem channel_major_counterexample:
  "wf4 x_ex \<and> t4_shape x_ex = (1, 1, 2, 3) \<and> in_channels L_ex = 3
   \<and> kernel_len L_ex = fst (kernel_size L_ex) * snd (kernel_size L_ex)
   \<and> patches_of L_ex x_ex = Inr P_ex
   \<and> extract_lorentz_patches L_ex P_ex
       = Inr \<lparr>t3_shape = (1, 1, 5), t3_data = [[[21, 4, 8, 6, 18]]]\<rparr>
   \<and> channel_major_block L_ex 1 2 3 (t4_data x_ex ! 0) 0 = [4, 6, 8, 18]
   \<and> tl (t3_data \<lparr>t3_shape = (1, 1, 5), t3_data = [[[21, 4, 8, 6, 18]]]\<rparr> ! 0 ! 0)
       \<noteq> channel_major_block L_ex 1 2 3 (t4_data x_ex ! 0) 0"
  using wf4_ex patches_of_ex extract_ex blocks_ex
  by (simp add: x_ex_def L_ex_def P_ex_def)

theorem spatial_block_order_witness:
  "wf4 x_ex \<and> t4_shape x_ex = (1, 1, 2, 3)
   \<and> kernel_len L_ex = fst (kernel_size L_ex) * snd (kernel_size L_ex)
   \<and> in_channels L_ex = int 3
   \<and> patches_of L_ex x_ex = Inr P_ex
   \<and> extract_lorentz_patches L_ex P_ex
       = Inr \<lparr>t3_shape = (1, 1, 5), t3_data = [[[21, 4, 8, 6, 18]]]\<rparr>
   \<and> 0 < length (t3_data P_ex) \<and> 0 < length (t3_data P_ex ! 0)
   \<and> drop (nat (kernel_len L_ex)) (t3_data P_ex ! 0 ! 0) = [4, 6, 8, 18]
   \<and> channel_major_block L_ex 1 2 3 (t4_data x_ex ! 0) 0 = [4, 6, 8, 18]
   \<and> tl (t3_data \<lparr>t3_shape = (1, 1, 5), t3_data = [[[21, 4, 8, 6, 18]]]\<rparr> ! 0 ! 0)
       = tap_major_block L_ex 1 2 3 (t4_data x_ex ! 0) 0
   \<and> tap_major_block L_ex 1 2 3 (t4_data x_ex ! 0) 0 = [4, 8, 6, 18]"
proof -
  have sh: "t4_shape x_ex = (1, 1, 2, 3)" by (simp add: x_ex_def)
  have f: "kernel_len L_ex = fst (kernel_size L_ex) * snd (kernel_size L_ex)"
    "in_channels L_ex = int 3" by (simp_all add: L_ex_def)
  have l: "0 < length (t3_data P_ex)" "0 < length (t3_data P_ex ! 0)"
    by (simp_all add: P_ex_def)
  have p: "patches_of L_ex x_ex = Inr P_ex" using patches_of_ex by (simp add: P_ex_def)
  have d: "drop (nat (kernel_len L_ex)) (t3_data P_ex ! 0 ! 0) = [4, 6, 8, 18]"
    by (simp add: L_ex_def P_ex_def)
  have b: "channel_major_block L_ex 1 2 3 (t4_data x_ex ! 0) 0 = [4, 6, 8, 18]"
    "tap_major_block L_ex 1 2 3 (t4_data x_ex ! 0) 0 = [4, 8, 6, 18]"
    using blocks_ex by (simp_all add: x_ex_def)
  show ?thesis
    using spatial_block_order [of x_ex 1 1 2 3 L_ex P_ex
        "\<lparr>t3_shape = (1, 1, 5), t3_data = [[[21, 4, 8, 6, 18]]]\<rparr>" 0 0]
      wf4_ex sh f l p extract_ex d b
    by simp
qed



section \<open>Clamping of the time taps\<close>

lemma nth3_update:
  assumes "Y < length img" "X < length (img ! Y)"
  shows "img[y := (img ! y)[xx := (img ! y ! xx)[0 := v]]] ! Y ! X ! ch
     = (if Y = y \<and> X = xx \<and> ch = 0 \<and> 0 < length (img ! y ! xx) then v else img ! Y ! X ! ch)"
proof (cases "Y = y")
  case False
  then show ?thesis by simp
next
  case Yy: True
  show ?thesis
  proof (cases "X = xx")
    case False
    then show ?thesis using Yy assms by simp
  next
    case True
    then show ?thesis using Yy assms by (cases ch) (simp_all add: nth_list_update)
  qed
qed

lemma pick_update:
  fixes Y X :: int and img :: "real list list list" and y xx :: nat and v :: real
  assumes img: "length img = h" "\<forall>row \<in> set img. length row = w"
  defines "img' \<equiv> img[y := (img ! y)[xx := (img ! y ! xx)[0 := v]]]"
  shows "ch \<noteq> 0 \<Longrightarrow>
      (if 0 \<le> Y \<and> Y < int h \<and> 0 \<le> X \<and> X < int w then img' ! nat Y ! nat X ! ch else 0)
      = (if 0 \<le> Y \<and> Y < int h \<and> 0 \<le> X \<and> X < int w then img ! nat Y ! nat X ! ch else 0)"
    and "img ! y ! xx ! 0 \<le> v \<Longrightarrow>
      max (if 0 \<le> Y \<and> Y < int h \<and> 0 \<le> X \<and> X < int w then img' ! nat Y ! nat X ! 0 else 0) v
      = max (if 0 \<le> Y \<and> Y < int h \<and> 0 \<le> X \<and> X < int w then img ! nat Y ! nat X ! 0 else 0) v"
proof -
  have upd: "img' ! nat Y ! nat X ! c
     = (if nat Y = y \<and> nat X = xx \<and> c = 0 \<and> 0 < length (img ! y ! xx) then v
        else img ! nat Y ! nat X ! c)"
    if "0 \<le> Y \<and> Y < int h \<and> 0 \<le> X \<and> X < int w" for c
  proof -
    have y: "nat Y < length img" using that img(1) by linarith
    then have "img ! nat Y \<in> set img" by (rule nth_mem)
    then have "length (img ! nat Y) = w" using img(2) by blast
    then have x: "nat X < length (img ! nat Y)" using that by linarith
    show ?thesis unfolding img'_def by (rule nth3_update [OF y x])
  qed
  show "ch \<noteq> 0 \<Longrightarrow>
      (if 0 \<le> Y \<and> Y < int h \<and> 0 \<le> X \<and> X < int w then img' ! nat Y ! nat X ! ch else 0)
      = (if 0 \<le> Y \<and> Y < int h \<and> 0 \<le> X \<and> X < int w then img ! nat Y ! nat X ! ch else 0)"
    using upd [of ch] by auto
  show "img ! y ! xx ! 0 \<le> v \<Longrightarrow>
      max (if 0 \<le> Y \<and> Y < int h \<and> 0 \<le> X \<and> X < int w then img' ! nat Y ! nat X ! 0 else 0) v
      = max (if 0 \<le> Y \<and> Y < int h \<and> 0 \<le> X \<and> X < int w then img ! nat Y ! nat X ! 0 else 0) v"
    using upd [of 0] by auto
qed

lemma pixel_at_update:
  assumes img: "length img = h" "\<forall>row \<in> set img. length row = w"
  shows "ch \<noteq> 0 \<Longrightarrow>
      pixel_at L h w (img[y := (img ! y)[xx := (img ! y ! xx)[0 := v]]]) l t ch
      = pixel_at L h w img l t ch"
    and "img ! y ! xx ! 0 \<le> v \<Longrightarrow>
      max (pixel_at L h w (img[y := (img ! y)[xx := (img ! y ! xx)[0 := v]]]) l t 0) v
      = max (pixel_at L h w img l t 0) v"
  unfolding pixel_at_def Let_def
  by (rule pick_update [OF img], assumption)+


lemma patch_row_time:
  assumes img: "length img = h" "\<forall>row \<in> set img. length row = w"
    and kl: "nat (kernel_len L) = nat (fst (kernel_size L)) * nat (snd (kernel_size L))"
    and pw: "patch_width L c = c * nat (kernel_len L)" and c: "0 < c"
  shows "take (nat (kernel_len L)) (patch_row L h w c img l)
     = map (\<lambda>t. pixel_at L h w img l t 0) [0..<nat (kernel_len L)]"
proof -
  let ?kl = "nat (kernel_len L)"
  let ?f = "\<lambda>d. tap (chw c img) h w (kernel_size L) (dilation L) (padding L) (stride L)
                 (nat (w_out_of L w)) d l"
  have le: "?kl \<le> c * ?kl" using c by simp
  have "take ?kl (patch_row L h w c img l) = map ?f [0..<?kl]"
    unfolding patch_row_def pw using le by (simp add: take_map min_def)
  also have "\<dots> = map (\<lambda>t. pixel_at L h w img l t 0) [0..<?kl]"
  proof (intro map_cong refl)
    fix t assume "t \<in> set [0..<?kl]"
    then have t: "t < nat (fst (kernel_size L)) * nat (snd (kernel_size L))"
      using kl by simp
    from tap_pixel [OF img c t, of l] show "?f t = pixel_at L h w img l t 0" by simp
  qed
  finally show ?thesis .
qed

lemma lorentz_row_cong:
  assumes "map (\<lambda>v. max v (sqrt k)) (take klen r) = map (\<lambda>v. max v (sqrt k)) (take klen r')"
    and "drop klen r = drop klen r'"
  shows "lorentz_row k klen cc D r = lorentz_row k klen cc D r'"
  using assms by (simp add: lorentz_row_def)

lemma lorentz_row_update:
  assumes img: "length img = h" "\<forall>row \<in> set img. length row = w"
    and kl: "nat (kernel_len L) = nat (fst (kernel_size L)) * nat (snd (kernel_size L))"
    and pw: "patch_width L c = c * nat (kernel_len L)" and c: "0 < c"
    and low: "img ! y ! xx ! 0 \<le> sqrt k"
  shows "lorentz_row k (nat (kernel_len L)) cc D
           (patch_row L h w c (img[y := (img ! y)[xx := (img ! y ! xx)[0 := sqrt k]]]) l)
         = lorentz_row k (nat (kernel_len L)) cc D (patch_row L h w c img l)"
proof (rule lorentz_row_cong)
  let ?img' = "img[y := (img ! y)[xx := (img ! y ! xx)[0 := sqrt k]]]"
  have img': "length ?img' = h" "\<forall>row \<in> set ?img'. length row = w"
  proof -
    show "length ?img' = h" using img(1) by simp
    show "\<forall>row \<in> set ?img'. length row = w"
    proof (cases "y < length img")
      case True
      then have "length (img ! y) = w" using img(2) by simp
      moreover have "set ?img' \<subseteq> insert ((img ! y)[xx := (img ! y ! xx)[0 := sqrt k]]) (set img)"
        by (rule set_update_subset_insert)
      ultimately show ?thesis using img(2) by auto
    next
      case False
      then have "?img' = img" by (simp add: list_update_beyond)
      then show ?thesis using img(2) by simp
    qed
  qed
  show "map (\<lambda>v. max v (sqrt k)) (take (nat (kernel_len L)) (patch_row L h w c ?img' l))
      = map (\<lambda>v. max v (sqrt k)) (take (nat (kernel_len L)) (patch_row L h w c img l))"
    unfolding patch_row_time [OF img kl pw c] patch_row_time [OF img' kl pw c]
    by (simp add: pixel_at_update(2) [OF img low])
  show "drop (nat (kernel_len L)) (patch_row L h w c ?img' l)
      = drop (nat (kernel_len L)) (patch_row L h w c img l)"
    unfolding patch_row_spatial [OF img kl pw c] patch_row_spatial [OF img' kl pw c]
      channel_major_block_def
    by (intro arg_cong [where f = concat] map_cong refl)
       (simp add: pixel_at_update(1) [OF img])
qed

lemma map_update_same:
  assumes "i < length xs \<Longrightarrow> f y = f (xs ! i)"
  shows "map f (xs[i := y]) = map f xs"
proof (cases "i < length xs")
  case True
  then show ?thesis using assms by (simp add: map_update list_update_same_conv)
next
  case False
  then have "xs[i := y] = xs" by (simp add: list_update_beyond)
  then show ?thesis by simp
qed

lemma pre_kernel_set_time:
  assumes wf: "wf4 x" and sh: "t4_shape x = (n, h, w, c)"
    and kl: "kernel_len L = fst (kernel_size L) * snd (kernel_size L)"
    and ok: "unfold_args_ok (kernel_size L) (dilation L) (padding L) (stride L)"
    and c: "0 < c"
    and low: "t4_data x ! i ! y ! xx ! 0 \<le> sqrt (manifold_k L)"
  shows "pre_kernel L (set_time x i y xx (sqrt (manifold_k L))) = pre_kernel L x"
proof -
  have ks: "0 < fst (kernel_size L)" "0 < snd (kernel_size L)"
    using ok by (simp_all add: unfold_args_ok_def)
  have kl': "nat (kernel_len L) = nat (fst (kernel_size L)) * nat (snd (kernel_size L))"
    unfolding kl using ks by (simp add: nat_mult_distrib)
  have pw: "patch_width L c = c * nat (kernel_len L)"
    by (simp add: patch_width_def kl)
  let ?F = "\<lambda>img. map (\<lambda>l. lorentz_row (manifold_k L) (nat (kernel_len L))
                              (nat (in_channels L - 1)) (patch_width L c)
                              (patch_row L h w c img l))
                      [0..<nat (h_out_of L h * w_out_of L w)]"
  let ?img = "t4_data x ! i"
  have "map ?F ((t4_data x)[i := ?img[y := (?img ! y)[xx := (?img ! y ! xx)
                       [0 := sqrt (manifold_k L)]]]]) = map ?F (t4_data x)"
  proof (rule map_update_same)
    assume "i < length (t4_data x)"
    then have i: "i < n" using wf sh by (simp add: wf4_def)
    note img = wf4_img(2,3) [OF wf sh i]
    show "?F (?img[y := (?img ! y)[xx := (?img ! y ! xx)[0 := sqrt (manifold_k L)]]]) = ?F ?img"
      by (intro map_cong refl lorentz_row_update [OF img kl' pw c low])
  qed
  then show ?thesis
    by (simp add: pre_kernel_def set_time_def sh)
qed

text \<open>
  Claim C6. For a layer whose \<open>kernel_len\<close> is the product of its kernel sizes and a
  well-formed input, replacing a time coordinate that lies below \<open>sqrt k\<close> by
  \<open>sqrt k\<close> changes nothing: \<open>forward\<close> gives the same result, value or error, and the
  same output. Every time tap below \<open>sqrt k\<close> is floored to \<open>sqrt k\<close> before the rescale
  step.
\<close>

theorem clamped_tap_same_output:
  "wf4 x \<and> t4_shape x = (n, h, w, c)
     \<and> kernel_len L = fst (kernel_size L) * snd (kernel_size L)
     \<and> i < n \<and> y < h \<and> xx < w \<and> 0 < c
     \<and> t4_data x ! i ! y ! xx ! 0 < sqrt (manifold_k L) \<longrightarrow>
   forward call L (set_time x i y xx (sqrt (manifold_k L))) out = forward call L x out"
proof (intro impI, elim conjE)
  assume wf: "wf4 x" and sh: "t4_shape x = (n, h, w, c)"
    and kl: "kernel_len L = fst (kernel_size L) * snd (kernel_size L)"
    and c: "0 < c" and low: "t4_data x ! i ! y ! xx ! 0 < sqrt (manifold_k L)"
  let ?x' = "set_time x i y xx (sqrt (manifold_k L))"
  have sh': "t4_shape ?x' = (n, h, w, c)" using sh by (simp add: set_time_def)
  have "forward_out call L ?x' = forward_out call L x"
  proof (cases "shapes_ok L (n, h, w, c)")
    case False
    then show ?thesis unfolding forward_out_eq [OF sh] forward_out_eq [OF sh'] by simp
  next
    case True
    then have ok: "unfold_args_ok (kernel_size L) (dilation L) (padding L) (stride L)"
      by (simp add: shapes_ok_def)
    have "pre_kernel L ?x' = pre_kernel L x"
      by (rule pre_kernel_set_time [OF wf sh kl ok c]) (use low in simp)
    then show ?thesis unfolding forward_out_eq [OF sh] forward_out_eq [OF sh'] by simp
  qed
  then show "forward call L ?x' out = forward call L x out"
    by (simp add: forward_def)
qed



lemma sqrt_361: "sqrt 361 = 19"
  by (rule real_sqrt_unique) simp_all

lemma set_time_low: "set_time x_low 0 0 0 (sqrt (manifold_k L_ex)) = x_floor"
  by (simp add: set_time_def x_low_def x_floor_def L_ex_def)

lemma forward_floor:
  "forward call_ex L_ex x_floor [] =
     (Inr \<lparr>t_shape = [1, 4, 1, 1, 2], t_data = replicate 8 55\<rparr>, [(''final'', [1, 4, 1, 1, 2])])"
proof -
  have sh: "t4_shape x_floor = (1, 1, 2, 3)" by (simp add: x_floor_def)
  have pr: "patch_row L_ex (Suc 0) 2 3 [[[1, 4, 8], [19, 6, 18]]] 0 = [1, 19, 4, 6, 8, 18]"
    unfolding patch_row_def h_out_ex upt6
    by (simp add: tap_def chw_def L_ex_def Let_def upt_rec nth_Cons')
  have lr: "lorentz_row 1 2 2 6 [1, 19, 4, 6, 8, 18] = [19, 4, 8, 6, 18]"
    by (simp add: lorentz_row_def time_radicand_def regroup_row_def transpose_2d_def
        reshape_rows_def upt2 sqrt_361)
  have a: "manifold_k L_ex = 1" "nat (kernel_len L_ex) = 2" "nat (in_channels L_ex - 1) = 2"
    by (simp_all add: L_ex_def)
  have pk: "pre_kernel L_ex x_floor = \<lparr>t3_shape = (1, 1, 5), t3_data = [[[19, 4, 8, 6, 18]]]\<rparr>"
    unfolding pre_kernel_def x_floor_def by (simp add: h_out_ex a pr lr)
  have c: "call_ex (linearized_kernel L_ex) (pre_kernel L_ex x_floor)
            = Inr \<lparr>t_shape = [1, 1, 8], t_data = replicate 8 55\<rparr>"
    unfolding pk by (simp add: call_ex_def L_ex_def)
  have v: "view_as \<lparr>t_shape = [1, 1, 8], t_data = replicate 8 55\<rparr> [1, 4, 1, 1, 2]
            = Inr \<lparr>t_shape = [1, 4, 1, 1, 2], t_data = replicate 8 55\<rparr>"
    by (simp add: view_as_def infer_size_def)
  have p: "stride L_ex = (1, 1)" "output_stabilizer_size L_ex = 4" "out_channels L_ex = 2"
    by (simp_all add: L_ex_def)
  have "forward_out call_ex L_ex x_floor
          = Inr \<lparr>t_shape = [1, 4, 1, 1, 2], t_data = replicate 8 55\<rparr>"
    unfolding forward_out_eq [OF sh]
    using shapes_ok_ex v by (simp add: c h_out_ex p)
  then show ?thesis by (simp add: forward_def)
qed

theorem clamped_tap_same_output_witness:
  "wf4 x_low \<and> t4_shape x_low = (1, 1, 2, 3)
   \<and> kernel_len L_ex = fst (kernel_size L_ex) * snd (kernel_size L_ex)
   \<and> (0::nat) < 1 \<and> (0::nat) < 2 \<and> (0::nat) < 3
   \<and> t4_data x_low ! 0 ! 0 ! 0 ! 0 < sqrt (manifold_k L_ex)
   \<and> set_time x_low 0 0 0 (sqrt (manifold_k L_ex)) = x_floor
   \<and> forward call_ex L_ex x_low [] = forward call_ex L_ex x_floor []
   \<and> forward call_ex L_ex x_low [] =
       (Inr \<lparr>t_shape = [1, 4, 1, 1, 2], t_data = replicate 8 55\<rparr>, [(''final'', [1, 4, 1, 1, 2])])"
proof -
  have wf: "wf4 x_low" by (simp add: wf4_def x_low_def)
  have sh: "t4_shape x_low = (1, 1, 2, 3)" by (simp add: x_low_def)
  have kl: "kernel_len L_ex = fst (kernel_size L_ex) * snd (kernel_size L_ex)"
    by (simp add: L_ex_def)
  have low: "t4_data x_low ! 0 ! 0 ! 0 ! 0 < sqrt (manifold_k L_ex)"
    by (simp add: x_low_def L_ex_def)
  have eq: "forward call_ex L_ex x_low [] = forward call_ex L_ex x_floor []"
    using clamped_tap_same_output [of x_low 1 1 2 3 L_ex 0 0 0 call_ex "[]"]
      wf sh kl low
    by (simp add: set_time_low)
  show ?thesis
    using wf sh kl low set_time_low eq forward_floor by simp
qed


section \<open>Mismatched channel count\<close>
















end
